theory Spec2Isabelle
  imports Complex_Main "HOL-Library.AList"
begin

unbundle bit_operations_syntax

section \<open>Conventions\<close>

text \<open>
  Shallow embedding of the real-time core of the music tutor. Python \<^verbatim>\<open>int\<close> is
  \<^typ>\<open>int\<close>; Python \<^verbatim>\<open>float\<close> (wall-clock seconds, beats, samples) is idealised as
  \<^typ>\<open>real\<close>, so every arithmetic statement below is about exact arithmetic on the
  values the code computes with. Every reading of \<^verbatim>\<open>time.time()\<close> is an explicit
  argument. A raised exception is the \<open>Inl\<close> branch of a sum.
\<close>

datatype error = ValueError string | ZeroDivisionError | UnboundLocalError

section \<open>music/phrase.py\<close>

record MusicalNote =
  pitch :: int
  start_time :: real
  duration :: real
  velocity :: int

text \<open>The dataclass constructor followed by \<^verbatim>\<open>__post_init__\<close>; the checks in source order.\<close>

definition MusicalNote_init :: "int \<Rightarrow> real \<Rightarrow> real \<Rightarrow> int \<Rightarrow> error + MusicalNote" where
  "MusicalNote_init p st d v =
     (if \<not> (0 \<le> p \<and> p \<le> 127) then Inl (ValueError ''MIDI pitch must be 0-127'')
      else if \<not> (0 \<le> v \<and> v \<le> 127) then Inl (ValueError ''MIDI velocity must be 0-127'')
      else if st < 0 then Inl (ValueError ''Start time must be >= 0'')
      else if d \<le> 0 then Inl (ValueError ''Duration must be > 0'')
      else Inr \<lparr>pitch = p, start_time = st, duration = d, velocity = v\<rparr>)"

text \<open>
  The class is declared \<^verbatim>\<open>@dataclass\<close> without \<^verbatim>\<open>frozen=True\<close>, so an assignment
  \<^verbatim>\<open>note.field = x\<close> to a constructed note stores the value: nothing raises and
  \<^verbatim>\<open>__post_init__\<close> is not run again.
\<close>

definition assign_pitch :: "MusicalNote \<Rightarrow> int \<Rightarrow> error + MusicalNote" where
  "assign_pitch n x = Inr (n\<lparr>pitch := x\<rparr>)"

definition assign_start_time :: "MusicalNote \<Rightarrow> real \<Rightarrow> error + MusicalNote" where
  "assign_start_time n x = Inr (n\<lparr>start_time := x\<rparr>)"

definition assign_duration :: "MusicalNote \<Rightarrow> real \<Rightarrow> error + MusicalNote" where
  "assign_duration n x = Inr (n\<lparr>duration := x\<rparr>)"

definition assign_velocity :: "MusicalNote \<Rightarrow> int \<Rightarrow> error + MusicalNote" where
  "assign_velocity n x = Inr (n\<lparr>velocity := x\<rparr>)"

text \<open>
  The metadata dictionary, one optional entry per key the code reads: \<open>None\<close> is a key
  that is absent.
\<close>

record metadata =
  md_style :: "string option"
  md_difficulty :: "int option"
  md_key :: "string option"
  md_tempo :: "int option"
  md_bars :: "int option"
  md_time_signature :: "(int \<times> int) option"
  md_description :: "string option"
  md_id :: "string option"

definition setdefault :: "'a option \<Rightarrow> 'a \<Rightarrow> 'a option" where
  "setdefault entry dflt = (case entry of None \<Rightarrow> Some dflt | Some x \<Rightarrow> Some x)"

definition set_defaults :: "metadata \<Rightarrow> metadata" where
  "set_defaults md =
     md\<lparr>md_style := setdefault (md_style md) ''modal_jazz'',
        md_difficulty := setdefault (md_difficulty md) 2,
        md_key := setdefault (md_key md) ''D_dorian'',
        md_tempo := setdefault (md_tempo md) 120,
        md_bars := setdefault (md_bars md) 2,
        md_time_signature := setdefault (md_time_signature md) (4, 4),
        md_description := setdefault (md_description md) ''Musical phrase''\<rparr>"

definition validate_metadata :: "metadata \<Rightarrow> error + metadata" where
  "validate_metadata md =
     (let validated = set_defaults md in
      if \<not> (1 \<le> the (md_difficulty validated) \<and> the (md_difficulty validated) \<le> 5)
        then Inl (ValueError ''Difficulty must be 1-5'')
      else if the (md_bars validated) \<notin> set [1, 2, 4]
        then Inl (ValueError ''Bars must be 1, 2, or 4'')
      else if the (md_tempo validated) \<le> 0
        then Inl (ValueError ''Tempo must be > 0'')
      else Inr validated)"

record Phrase =
  ph_notes :: "MusicalNote list"
  ph_metadata :: metadata

definition Phrase_init :: "MusicalNote list \<Rightarrow> metadata \<Rightarrow> error + Phrase" where
  "Phrase_init ns md =
     (case validate_metadata md of
        Inl e \<Rightarrow> Inl e
      | Inr validated \<Rightarrow> Inr \<lparr>ph_notes = ns, ph_metadata = validated\<rparr>)"

definition difficulty :: "Phrase \<Rightarrow> int" where
  "difficulty ph = the (md_difficulty (ph_metadata ph))"

definition tempo :: "Phrase \<Rightarrow> int" where
  "tempo ph = the (md_tempo (ph_metadata ph))"

definition bars :: "Phrase \<Rightarrow> int" where
  "bars ph = the (md_bars (ph_metadata ph))"

definition measures :: "Phrase \<Rightarrow> int" where
  "measures ph = bars ph"

text \<open>\<^verbatim>\<open>Phrase.__len__\<close>: the truth value of a phrase object is \<open>len ph \<noteq> 0\<close>.\<close>

definition len :: "Phrase \<Rightarrow> nat" where
  "len ph = length (ph_notes ph)"

section \<open>audio/drum\_engine.py\<close>

record DrumEngine =
  de_bpm :: int
  de_is_playing :: bool
  de_current_genre :: string
  de_session_start_time :: "real option"

definition patterns :: "string list" where
  "patterns = [''modal_jazz'', ''blues'', ''folk'']"

definition DrumEngine_init :: DrumEngine where
  "DrumEngine_init =
     \<lparr>de_bpm = 100, de_is_playing = False, de_current_genre = ''modal_jazz'',
      de_session_start_time = None\<rparr>"

definition set_bpm :: "DrumEngine \<Rightarrow> int \<Rightarrow> DrumEngine" where
  "set_bpm d b = d\<lparr>de_bpm := max 60 (min 180 b)\<rparr>"

definition set_genre :: "DrumEngine \<Rightarrow> string \<Rightarrow> DrumEngine" where
  "set_genre d g = (if g \<in> set patterns then d\<lparr>de_current_genre := g\<rparr> else d)"

definition start_drumming :: "DrumEngine \<Rightarrow> real option \<Rightarrow> DrumEngine" where
  "start_drumming d sst =
     (if de_is_playing d then d
      else d\<lparr>de_is_playing := True, de_session_start_time := sst\<rparr>)"

definition stop_drumming :: "DrumEngine \<Rightarrow> DrumEngine" where
  "stop_drumming d = (if \<not> de_is_playing d then d else d\<lparr>de_is_playing := False\<rparr>)"

text \<open>The first two lines of \<^verbatim>\<open>_drum_loop\<close>: the beat and the measure the loop runs at.\<close>

definition drum_beat_duration :: "DrumEngine \<Rightarrow> real" where
  "drum_beat_duration d = 60 / real_of_int (de_bpm d)"

definition drum_measure_duration :: "DrumEngine \<Rightarrow> real" where
  "drum_measure_duration d = drum_beat_duration d * 4"

datatype drum_op =
  SetBpm int | SetGenre string | StartDrumming "real option" | StopDrumming

fun drum_apply :: "DrumEngine \<Rightarrow> drum_op \<Rightarrow> DrumEngine" where
  "drum_apply d (SetBpm b) = set_bpm d b"
| "drum_apply d (SetGenre g) = set_genre d g"
| "drum_apply d (StartDrumming sst) = start_drumming d sst"
| "drum_apply d StopDrumming = stop_drumming d"

section \<open>Python dictionaries\<close>

text \<open>
  A \<^verbatim>\<open>dict\<close> is an association list in insertion order with one entry per key:
  \<^const>\<open>map_of\<close> is the lookup, \<^const>\<open>AList.update\<close> is \<^verbatim>\<open>d[k] = v\<close> (an existing key
  keeps its position, a new key goes to the end) and \<^const>\<open>AList.delete\<close> is
  \<^verbatim>\<open>del d[k]\<close>.
\<close>

type_synonym ('k, 'v) dict = "('k \<times> 'v) list"

definition keys :: "('k, 'v) dict \<Rightarrow> 'k set" where
  "keys d = fst ` set d"

section \<open>midi/note\_processor\_new.py\<close>

record MIDINote =
  mn_pitch :: int
  mn_velocity :: int
  mn_timestamp :: real
  mn_duration :: "real option"

record NoteProcessor =
  np_active_notes :: "(int, int \<times> real) dict"
  np_completed_notes :: "MIDINote list"
  np_session_start_time :: "real option"

definition NoteProcessor_init :: NoteProcessor where
  "NoteProcessor_init =
     \<lparr>np_active_notes = [], np_completed_notes = [], np_session_start_time = None\<rparr>"

text \<open>
  Each handler returns the value the method returns together with the processor after
  the call. The timestamp is optional as in the source.
\<close>

definition handle_note_on ::
  "NoteProcessor \<Rightarrow> int \<Rightarrow> int \<Rightarrow> real option \<Rightarrow> MIDINote option \<times> NoteProcessor" where
  "handle_note_on s p v timestamp =
     (case timestamp of
        None \<Rightarrow> (None, s)
      | Some t \<Rightarrow>
          (let (completed_note, s1) =
             (case map_of (np_active_notes s) p of
                None \<Rightarrow> (None, s)
              | Some (prev_velocity, st) \<Rightarrow>
                  (case np_session_start_time s of
                     None \<Rightarrow> (None, s)
                   | Some sst \<Rightarrow>
                       (let n = \<lparr>mn_pitch = p, mn_velocity = prev_velocity,
                                  mn_timestamp = st - sst, mn_duration = Some (t - st)\<rparr>
                        in (Some n, s\<lparr>np_completed_notes := np_completed_notes s @ [n]\<rparr>))))
           in (completed_note,
               s1\<lparr>np_active_notes := AList.update p (v, t) (np_active_notes s1)\<rparr>)))"

definition handle_note_off ::
  "NoteProcessor \<Rightarrow> int \<Rightarrow> int \<Rightarrow> real option \<Rightarrow> MIDINote option \<times> NoteProcessor" where
  "handle_note_off s p v timestamp =
     (case timestamp of
        None \<Rightarrow> (None, s)
      | Some t \<Rightarrow>
          (case map_of (np_active_notes s) p of
             None \<Rightarrow> (None, s)
           | Some (start_velocity, st) \<Rightarrow>
               (let (d, note_timestamp) =
                      (case np_session_start_time s of
                         Some sst \<Rightarrow> (t - st, st - sst)
                       | None \<Rightarrow> (0, 0));
                    n = \<lparr>mn_pitch = p, mn_velocity = start_velocity,
                         mn_timestamp = note_timestamp, mn_duration = Some d\<rparr>
                in (Some n,
                    s\<lparr>np_active_notes := AList.delete p (np_active_notes s),
                      np_completed_notes := np_completed_notes s @ [n]\<rparr>))))"

text \<open>
  \<^verbatim>\<open>process_midi_event\<close>; \<open>now\<close> is the clock reading used when the caller passes no
  timestamp. The control-change, program-change and pitch-bend handlers are empty in
  the source, so those branches only return \<open>None\<close>.
\<close>

definition process_midi_event ::
  "NoteProcessor \<Rightarrow> real \<Rightarrow> int list \<Rightarrow> real option \<Rightarrow> MIDINote option \<times> NoteProcessor" where
  "process_midi_event s now message timestamp =
     (if message = [] then (None, s)
      else
        (let t = (case timestamp of None \<Rightarrow> now | Some t' \<Rightarrow> t');
             s1 = (case np_session_start_time s of
                     None \<Rightarrow> s\<lparr>np_session_start_time := Some t\<rparr>
                   | Some _ \<Rightarrow> s);
             status_byte = message ! 0;
             message_type = status_byte AND 0xF0
         in if message_type = 0x90 \<and> 3 \<le> length message then
              (if message ! 2 = 0 then handle_note_off s1 (message ! 1) (message ! 2) (Some t)
               else handle_note_on s1 (message ! 1) (message ! 2) (Some t))
            else if message_type = 0x80 \<and> 3 \<le> length message then
              handle_note_off s1 (message ! 1) (message ! 2) (Some t)
            else (None, s1)))"

section \<open>music/phrase\_player.py\<close>

record PhrasePlayer =
  pp_session_start_time :: "real option"
  pp_beat_interval :: real
  pp_current_bpm :: int

definition PhrasePlayer_init :: PhrasePlayer where
  "PhrasePlayer_init =
     \<lparr>pp_session_start_time = None, pp_beat_interval = 60 / 120, pp_current_bpm = 120\<rparr>"

definition set_session_timing :: "PhrasePlayer \<Rightarrow> real \<Rightarrow> int \<Rightarrow> error + PhrasePlayer" where
  "set_session_timing pp sst b =
     (if b = 0 then Inl ZeroDivisionError
      else Inr (pp\<lparr>pp_session_start_time := Some sst,
                   pp_beat_interval := 60 / real_of_int b,
                   pp_current_bpm := b\<rparr>))"

text \<open>Python's \<^verbatim>\<open>x % y\<close> on floats, for a positive divisor: the remainder of floored division.\<close>

definition py_mod :: "real \<Rightarrow> real \<Rightarrow> real" where
  "py_mod x y = x - y * of_int \<lfloor>x / y\<rfloor>"

definition BEATS_PER_MEASURE :: real where
  "BEATS_PER_MEASURE = 4"

definition calculate_next_downbeat :: "PhrasePlayer \<Rightarrow> real \<Rightarrow> real" where
  "calculate_next_downbeat pp now =
     (case pp_session_start_time pp of
        None \<Rightarrow> now
      | Some sst \<Rightarrow>
          (let current_time = now;
               elapsed_time = current_time - sst;
               current_beat_position = elapsed_time / pp_beat_interval pp;
               beats_in_current_measure = py_mod current_beat_position BEATS_PER_MEASURE;
               beats_until_next_downbeat =
                 (if beats_in_current_measure < 0.001 then 0
                  else BEATS_PER_MEASURE - beats_in_current_measure);
               time_until_next_downbeat = beats_until_next_downbeat * pp_beat_interval pp
           in current_time + time_until_next_downbeat))"

text \<open>
  The head of \<^verbatim>\<open>_playback_worker\<close>: the instant at which the worker goes on to emit the
  phrase, the downbeat computation and the clock reading that follows it taken at the
  same instant \<open>now\<close>.
\<close>

definition playback_start :: "PhrasePlayer \<Rightarrow> real \<Rightarrow> real" where
  "playback_start pp now =
     (case pp_session_start_time pp of
        None \<Rightarrow> now
      | Some _ \<Rightarrow>
          (let next_downbeat = calculate_next_downbeat pp now;
               wait_time = next_downbeat - now
           in if wait_time > 0 then now + wait_time else now))"

section \<open>audio/synthesizer.py\<close>

record ActiveNote =
  an_midi_note :: int
  an_frequency :: real
  an_velocity :: real
  an_start_time :: real
  an_phase :: real

record ADSREnvelope =
  env_attack :: real
  env_decay :: real
  env_sustain :: real
  env_release :: real

definition ADSREnvelope_init :: ADSREnvelope where
  "ADSREnvelope_init =
     \<lparr>env_attack = 0.01, env_decay = 0.1, env_sustain = 0.7, env_release = 0.3\<rparr>"

definition get_amplitude :: "ADSREnvelope \<Rightarrow> real \<Rightarrow> bool \<Rightarrow> real \<Rightarrow> real" where
  "get_amplitude env time_since_start note_released time_since_release =
     (if note_released then
        (if time_since_release \<ge> env_release env then 0
         else env_sustain env * (1 - time_since_release / env_release env))
      else if time_since_start < env_attack env then time_since_start / env_attack env
      else if time_since_start < env_attack env + env_decay env then
        1 - ((time_since_start - env_attack env) / env_decay env) * (1 - env_sustain env)
      else env_sustain env)"

record AudioSynthesizer =
  syn_sample_rate :: int
  syn_buffer_size :: int
  syn_active_notes :: "(int, ActiveNote) dict"
  syn_released_notes :: "(int, ActiveNote \<times> real) dict"
  syn_envelope :: ADSREnvelope
  syn_master_volume :: real

definition AudioSynthesizer_init :: "int \<Rightarrow> int \<Rightarrow> AudioSynthesizer" where
  "AudioSynthesizer_init sample_rate buffer_size =
     \<lparr>syn_sample_rate = sample_rate, syn_buffer_size = buffer_size,
      syn_active_notes = [], syn_released_notes = [],
      syn_envelope = ADSREnvelope_init, syn_master_volume = 0.3\<rparr>"

definition midi_to_frequency :: "int \<Rightarrow> real" where
  "midi_to_frequency midi_note = 440 * 2 powr (real_of_int (midi_note - 69) / 12)"

definition note_on :: "AudioSynthesizer \<Rightarrow> real \<Rightarrow> int \<Rightarrow> int \<Rightarrow> AudioSynthesizer" where
  "note_on s now midi_note vel =
     (let freq = midi_to_frequency midi_note;
          velocity_float = real_of_int vel / 127;
          released = (if midi_note \<in> keys (syn_released_notes s)
                      then AList.delete midi_note (syn_released_notes s)
                      else syn_released_notes s)
      in s\<lparr>syn_released_notes := released,
            syn_active_notes :=
              AList.update midi_note
                \<lparr>an_midi_note = midi_note, an_frequency = freq, an_velocity = velocity_float,
                 an_start_time = now, an_phase = 0\<rparr>
                (syn_active_notes s)\<rparr>)"

definition note_off :: "AudioSynthesizer \<Rightarrow> real \<Rightarrow> int \<Rightarrow> AudioSynthesizer" where
  "note_off s now midi_note =
     (case map_of (syn_active_notes s) midi_note of
        None \<Rightarrow> s
      | Some note \<Rightarrow>
          s\<lparr>syn_active_notes := AList.delete midi_note (syn_active_notes s),
            syn_released_notes := AList.update midi_note (note, now) (syn_released_notes s)\<rparr>)"

text \<open>
  The sample loop of \<^verbatim>\<open>_generate_note_samples\<close> from index \<open>i\<close> with \<open>k\<close> samples
  left: it returns the remaining samples and the note with its phase advanced. When the
  envelope is not positive the loop breaks and the rest of the buffer stays zero.
\<close>

fun sample_loop ::
  "ADSREnvelope \<Rightarrow> real \<Rightarrow> real \<Rightarrow> bool \<Rightarrow> real \<Rightarrow> ActiveNote \<Rightarrow> nat \<Rightarrow> nat
   \<Rightarrow> real list \<times> ActiveNote" where
  "sample_loop env dt time_since_start note_released time_since_release note i 0 = ([], note)"
| "sample_loop env dt time_since_start note_released time_since_release note i (Suc k) =
     (let sample_time_since_start = time_since_start + real i * dt;
          sample_time_since_release =
            (if note_released then time_since_release + real i * dt else 0);
          amplitude = get_amplitude env sample_time_since_start note_released
                        sample_time_since_release
      in if amplitude \<le> 0 then (replicate (Suc k) 0, note)
         else
           (let sample = sin (an_phase note) * an_velocity note * amplitude;
                phase1 = an_phase note + 2 * pi * an_frequency note * dt;
                phase2 = (if phase1 \<ge> 2 * pi then phase1 - 2 * pi else phase1);
                (rest, note') =
                  sample_loop env dt time_since_start note_released time_since_release
                    (note\<lparr>an_phase := phase2\<rparr>) (Suc i) k
            in (sample # rest, note')))"

text \<open>
  \<^verbatim>\<open>_generate_note_samples\<close>, called with a non-zero sample rate. The release time is
  tested for truth in the source, so a release time of exactly \<open>0\<close> counts as no time
  elapsed.
\<close>

definition generate_note_samples ::
  "AudioSynthesizer \<Rightarrow> ActiveNote \<Rightarrow> nat \<Rightarrow> real \<Rightarrow> real option \<Rightarrow> real list \<times> ActiveNote" where
  "generate_note_samples s note num_samples current_time release_time =
     (let dt = 1 / real_of_int (syn_sample_rate s);
          time_since_start = current_time - an_start_time note;
          note_released = (release_time \<noteq> None);
          time_since_release =
            (case release_time of
               None \<Rightarrow> 0
             | Some r \<Rightarrow> (if r \<noteq> 0 then current_time - r else 0))
      in sample_loop (syn_envelope s) dt time_since_start note_released time_since_release
           note 0 num_samples)"

definition add_buffers :: "real list \<Rightarrow> real list \<Rightarrow> real list" where
  "add_buffers buffer note_buffer = map2 (+) buffer note_buffer"

fun process_active ::
  "AudioSynthesizer \<Rightarrow> nat \<Rightarrow> real \<Rightarrow> (int, ActiveNote) dict \<Rightarrow> real list
   \<Rightarrow> (int, ActiveNote) dict \<times> real list" where
  "process_active s n current_time [] buffer = ([], buffer)"
| "process_active s n current_time ((k, note) # rest) buffer =
     (let (note_buffer, note') = generate_note_samples s note n current_time None;
          (rest', buffer') =
            process_active s n current_time rest (add_buffers buffer note_buffer)
      in ((k, note') # rest', buffer'))"

fun process_released ::
  "AudioSynthesizer \<Rightarrow> nat \<Rightarrow> real \<Rightarrow> (int, ActiveNote \<times> real) dict \<Rightarrow> real list
   \<Rightarrow> (int, ActiveNote \<times> real) dict \<times> real list" where
  "process_released s n current_time [] buffer = ([], buffer)"
| "process_released s n current_time ((k, (note, release_time)) # rest) buffer =
     (let (note_buffer, note') =
            generate_note_samples s note n current_time (Some release_time);
          time_since_release = current_time - release_time;
          kept = (if time_since_release \<ge> env_release (syn_envelope s) then []
                  else [(k, (note', release_time))]);
          (rest', buffer') =
            process_released s n current_time rest (add_buffers buffer note_buffer)
      in (kept @ rest', buffer'))"

definition clip :: "real \<Rightarrow> real \<Rightarrow> real \<Rightarrow> real" where
  "clip x lo hi = min (max x lo) hi"

text \<open>
  \<^verbatim>\<open>generate_audio_buffer\<close>. With a sample rate of \<open>0\<close> the first note processed raises
  on \<^verbatim>\<open>1.0 / self.sample_rate\<close> before anything is changed.
\<close>

definition generate_audio_buffer ::
  "AudioSynthesizer \<Rightarrow> real \<Rightarrow> nat \<Rightarrow> (error + real list) \<times> AudioSynthesizer" where
  "generate_audio_buffer s current_time num_samples =
     (if syn_sample_rate s = 0 \<and> (syn_active_notes s \<noteq> [] \<or> syn_released_notes s \<noteq> [])
      then (Inl ZeroDivisionError, s)
      else
        (let buffer0 = replicate num_samples 0;
             (active', buffer1) =
               process_active s num_samples current_time (syn_active_notes s) buffer0;
             (released', buffer2) =
               process_released s num_samples current_time (syn_released_notes s) buffer1;
             buffer3 = map (\<lambda>x. x * syn_master_volume s) buffer2;
             buffer4 = map (\<lambda>x. clip x (-1) 1) buffer3
         in (Inr buffer4, s\<lparr>syn_active_notes := active', syn_released_notes := released'\<rparr>)))"

definition stop_all_notes :: "AudioSynthesizer \<Rightarrow> AudioSynthesizer" where
  "stop_all_notes s = s\<lparr>syn_active_notes := [], syn_released_notes := []\<rparr>"

text \<open>The two note collections never hold the same pitch.\<close>

definition disjoint_notes :: "AudioSynthesizer \<Rightarrow> bool" where
  "disjoint_notes s = (keys (syn_active_notes s) \<inter> keys (syn_released_notes s) = {})"

section \<open>evaluation/claude\_evaluator.py\<close>

record ClaudeEvaluation =
  ev_grade :: string
  ev_positive_feedback :: string
  ev_improvement_feedback :: string
  ev_recommendation :: string
  ev_confidence :: real
  ev_raw_response :: string

definition get_fallback_evaluation :: "Phrase \<Rightarrow> Phrase \<Rightarrow> ClaudeEvaluation" where
  "get_fallback_evaluation target_phrase student_phrase =
     (let note_count_ratio =
            real (length (ph_notes student_phrase))
              / real (max (length (ph_notes target_phrase)) 1);
          (g, positive, improvement, rec) =
            (if note_count_ratio \<ge> 0.8 then
               (''B+'', ''Good effort attempting the full phrase!'',
                ''Continue practicing to refine pitch and timing accuracy.'', ''REPEAT'')
             else if note_count_ratio \<ge> 0.5 then
               (''C+'', ''Nice work on the notes you played!'',
                ''Try to play all the notes in the phrase.'', ''REPEAT'')
             else
               (''C'', ''Keep practicing - you're making progress!'',
                ''Focus on listening carefully to the full phrase.'', ''SIMPLIFY''))
      in \<lparr>ev_grade = g, ev_positive_feedback = positive, ev_improvement_feedback = improvement,
          ev_recommendation = rec, ev_confidence = 0.5,
          ev_raw_response = ''Fallback evaluation - Claude unavailable''\<rparr>)"

text \<open>
  What a call of the external evaluator does: it raises, or it returns an evaluation or
  \<^verbatim>\<open>None\<close>.
\<close>

datatype eval_outcome = Raises | Returns "ClaudeEvaluation option"

section \<open>music/listening\_manager.py\<close>

datatype SessionState = IDLE | PLAYBACK | LISTENING | RECORDING_RESPONSE | FEEDBACK

record ListeningConfig =
  cfg_input_timeout :: real
  cfg_response_measures :: int
  cfg_bpm :: int

definition ListeningConfig_init :: ListeningConfig where
  "ListeningConfig_init = \<lparr>cfg_input_timeout = 10, cfg_response_measures = 1, cfg_bpm = 120\<rparr>"

definition get_response_duration :: "ListeningConfig \<Rightarrow> error + real" where
  "get_response_duration c =
     (let beats_per_measure = 4;
          total_beats = cfg_response_measures c * beats_per_measure
      in if cfg_bpm c = 0 then Inl ZeroDivisionError
         else Inr ((real_of_int total_beats * 60) / real_of_int (cfg_bpm c)))"

text \<open>
  A captured event: \<open>note_on_event note velocity timestamp\<close> and
  \<open>note_off_event note timestamp\<close>, the two shapes of dictionary the input handlers
  record.
\<close>

datatype midi_event = note_on_event int int real | note_off_event int real

subsection \<open>Conversion of a recording into a phrase\<close>

text \<open>
  The first loop of \<^verbatim>\<open>_convert_midi_recording_to_phrase\<close>: \<open>active\<close> holds, per pitch,
  the velocity and timestamp of the note-on waiting for its note-off. A failing note
  construction leaves the loop.
\<close>

fun pair_events ::
  "real \<Rightarrow> midi_event list \<Rightarrow> (int, int \<times> real) dict \<Rightarrow> MusicalNote list
   \<Rightarrow> error + (MusicalNote list \<times> (int, int \<times> real) dict)" where
  "pair_events bps [] active ns = Inr (ns, active)"
| "pair_events bps (note_on_event note v ts # es) active ns =
     pair_events bps es (AList.update note (v, ts) active) ns"
| "pair_events bps (note_off_event note ts # es) active ns =
     (case map_of active note of
        None \<Rightarrow> pair_events bps es active ns
      | Some (v0, t0) \<Rightarrow>
          (let start_beat = t0 * bps;
               duration_beats = (ts - t0) * bps
           in case MusicalNote_init note start_beat (max 0.1 duration_beats) v0 of
                Inl e \<Rightarrow> Inl e
              | Inr n \<Rightarrow> pair_events bps es (AList.delete note active) (ns @ [n])))"

text \<open>The second loop: the notes still on at the end of the recording.\<close>

fun close_open_notes ::
  "real \<Rightarrow> (int, int \<times> real) dict \<Rightarrow> MusicalNote list \<Rightarrow> error + MusicalNote list" where
  "close_open_notes bps [] ns = Inr ns"
| "close_open_notes bps ((note_num, (v0, t0)) # rest) ns =
     (let start_beat = t0 * bps;
          duration_beats = 0.5
      in case MusicalNote_init note_num start_beat duration_beats v0 of
           Inl e \<Rightarrow> Inl e
         | Inr n \<Rightarrow> close_open_notes bps rest (ns @ [n]))"

text \<open>Python's \<^verbatim>\<open>int(x)\<close> on a float truncates towards zero.\<close>

definition py_int :: "real \<Rightarrow> int" where
  "py_int x = (if 0 \<le> x then \<lfloor>x\<rfloor> else \<lceil>x\<rceil>)"

fun list_max :: "real list \<Rightarrow> real" where
  "list_max [] = 0"
| "list_max (x # xs) = fold max xs x"

text \<open>
  \<^verbatim>\<open>_convert_midi_recording_to_phrase\<close>. Every exception is caught and gives \<^verbatim>\<open>None\<close>.
  \<open>response_id\<close> is the identifier the code builds from the clock; the metadata keys
  \<^verbatim>\<open>recorded_events\<close> and \<^verbatim>\<open>recording_duration\<close>, which nothing reads, are left out.
  \<open>list_max\<close> is only applied to a non-empty list.
\<close>

definition convert_midi_recording_to_phrase ::
  "ListeningConfig \<Rightarrow> string \<Rightarrow> midi_event list \<Rightarrow> Phrase option" where
  "convert_midi_recording_to_phrase config response_id recorded =
     (if recorded = [] then None
      else
        (let beats_per_second = real_of_int (cfg_bpm config) / 60 in
         case pair_events beats_per_second recorded [] [] of
           Inl e \<Rightarrow> None
         | Inr (ns, active) \<Rightarrow>
             (case close_open_notes beats_per_second active ns of
                Inl e \<Rightarrow> None
              | Inr ns' \<Rightarrow>
                  (if ns' = [] then None
                   else
                     (let phrase_duration_beats =
                            list_max (map (\<lambda>n. start_time n + duration n) ns');
                          estimated_bars = max 1 (py_int (phrase_duration_beats / 4));
                          md = \<lparr>md_style = Some ''student_response'',
                                md_difficulty = Some 1,
                                md_key = Some ''unknown'',
                                md_tempo = Some (cfg_bpm config),
                                md_bars = Some (min estimated_bars 4),
                                md_time_signature = Some (4, 4),
                                md_description = Some ''Student Response'',
                                md_id = Some response_id\<rparr>
                      in case Phrase_init ns' md of
                           Inl e \<Rightarrow> None
                         | Inr ph \<Rightarrow> Some ph)))))"

subsection \<open>What a recording means\<close>

text \<open>
  The reading of a recording that the conversion is compared with, defined on the event
  list alone. \<open>open_note p pre\<close> is the note-on of pitch \<open>p\<close> that is waiting for its
  note-off after the events \<open>pre\<close>: the last event about \<open>p\<close>, when that is a note-on.
\<close>

fun is_on :: "int \<Rightarrow> midi_event \<Rightarrow> bool" where
  "is_on p (note_on_event q v t) = (q = p)"
| "is_on p (note_off_event q t) = False"

fun is_off :: "int \<Rightarrow> midi_event \<Rightarrow> bool" where
  "is_off p (note_on_event q v t) = False"
| "is_off p (note_off_event q t) = (q = p)"

definition concerns :: "int \<Rightarrow> midi_event \<Rightarrow> bool" where
  "concerns p e = (is_on p e \<or> is_off p e)"

definition open_note :: "int \<Rightarrow> midi_event list \<Rightarrow> (int \<times> real) option" where
  "open_note p pre =
     (case find (concerns p) (rev pre) of
        Some (note_on_event q v t) \<Rightarrow> Some (v, t)
      | _ \<Rightarrow> None)"

text \<open>
  One note per note-off that finds its pitch open, in the order of the note-offs;
  \<open>pre\<close> is the part of the recording before the events still to be read.
\<close>

fun paired_notes :: "real \<Rightarrow> midi_event list \<Rightarrow> midi_event list \<Rightarrow> MusicalNote list" where
  "paired_notes bps pre [] = []"
| "paired_notes bps pre (note_on_event p v t # es) =
     paired_notes bps (pre @ [note_on_event p v t]) es"
| "paired_notes bps pre (note_off_event p t' # es) =
     (case open_note p pre of
        None \<Rightarrow> []
      | Some (v, t) \<Rightarrow>
          [\<lparr>pitch = p, start_time = t * bps, duration = max 0.1 ((t' - t) * bps),
            velocity = v\<rparr>])
     @ paired_notes bps (pre @ [note_off_event p t']) es"

text \<open>
  \<open>opened_at p es\<close> is the position in \<open>es\<close> of the note-on that opened \<open>p\<close> for the
  last time: the first note-on of \<open>p\<close> after the last note-off of \<open>p\<close>.
\<close>

definition since_last_off :: "int \<Rightarrow> midi_event list \<Rightarrow> midi_event list" where
  "since_last_off p es = rev (takeWhile (\<lambda>e. \<not> is_off p e) (rev es))"

definition opened_at :: "int \<Rightarrow> midi_event list \<Rightarrow> nat" where
  "opened_at p es =
     (length es - length (since_last_off p es))
       + length (takeWhile (\<lambda>e. \<not> is_on p e) (since_last_off p es))"

text \<open>The note made for a pitch still open at the end of the recording.\<close>

definition open_entry :: "real \<Rightarrow> int \<times> int \<times> real \<Rightarrow> MusicalNote" where
  "open_entry bps e =
     (case e of (p, (v, t)) \<Rightarrow>
        \<lparr>pitch = p, start_time = t * bps, duration = 0.5, velocity = v\<rparr>)"

text \<open>
  The open notes held by the conversion after the events \<open>pre\<close> have one entry per pitch
  and are in the order in which the pitches were opened.
\<close>

definition ordered_keys :: "midi_event list \<Rightarrow> (int, int \<times> real) dict \<Rightarrow> bool" where
  "ordered_keys pre active =
     (distinct (map fst active)
      \<and> sorted_wrt (\<lambda>a b. opened_at a pre < opened_at b pre) (map fst active)
      \<and> (\<forall>k \<in> set (map fst active). opened_at k pre < length pre))"

text \<open>
  The spec's reading of C2: the notes of a recording are its note-ons, pitch and
  velocity, in the order played.
\<close>

fun recorded_notes :: "midi_event list \<Rightarrow> (int \<times> int) list" where
  "recorded_notes [] = []"
| "recorded_notes (note_on_event p v t # es) = (p, v) # recorded_notes es"
| "recorded_notes (note_off_event p t # es) = recorded_notes es"

subsection \<open>The session state machine\<close>

text \<open>
  The collaborators of the state machine: the phrase library's \<^verbatim>\<open>filter_phrases\<close> (style
  and optional difficulty; \<^verbatim>\<open>get_phrases_by_style\<close> is the call without a difficulty) and
  the value \<^verbatim>\<open>random.choice\<close> returns.
\<close>

record Collaborators =
  lib_filter_phrases :: "string \<Rightarrow> int option \<Rightarrow> Phrase list"
  random_choice :: "Phrase list \<Rightarrow> Phrase"

datatype session_event =
    SessionStarted | SessionStopped | StateChanged SessionState SessionState
  | PhrasePlaybackStarted | PhrasePlaybackFinished | ListeningStarted
  | UserInputDetected | InputTimeout | UserResponseStarted | UserResponseFinished
  | FeedbackStarted | FeedbackFinished | ClaudeEvaluationComplete ClaudeEvaluation

text \<open>
  The fields of \<^verbatim>\<open>PhraseListeningManager\<close> that its handlers read and write. The three
  worker counters stand for the threads it has started that have not yet run their
  final locked section; \<open>sm_play_requests\<close> lists the calls of \<^verbatim>\<open>play_phrase\<close> and
  \<open>sm_events\<close> the events emitted.
\<close>

record Session =
  sm_state :: SessionState
  sm_config :: ListeningConfig
  sm_session_active :: bool
  sm_stop_listening :: bool
  sm_session_start_time :: "real option"
  sm_beat_interval :: real
  sm_midi_notes_playing :: "int set"
  sm_user_input_detected :: bool
  sm_response_start_time :: "real option"
  sm_recording_active :: bool
  sm_recorded_midi_events :: "midi_event list"
  sm_active_note_starts :: "(int, real) dict"
  sm_current_phrase :: "Phrase option"
  sm_phrases_completed :: int
  sm_last_student_phrase :: "Phrase option"
  sm_initial_difficulty :: "int option"
  sm_initial_style :: string
  sm_phrase_attempt_history :: "(string, string list) dict"
  sm_current_phrase_attempts :: int
  sm_last_recommendation :: "string option"
  sm_listening_workers :: nat
  sm_recording_workers :: nat
  sm_evaluation_workers :: nat
  sm_play_requests :: "(Phrase \<times> int) list"
  sm_events :: "session_event list"

definition Session_init :: Session where
  "Session_init =
     \<lparr>sm_state = IDLE, sm_config = ListeningConfig_init, sm_session_active = False,
      sm_stop_listening = False, sm_session_start_time = None, sm_beat_interval = 60 / 120,
      sm_midi_notes_playing = {}, sm_user_input_detected = False,
      sm_response_start_time = None, sm_recording_active = False,
      sm_recorded_midi_events = [], sm_active_note_starts = [],
      sm_current_phrase = None, sm_phrases_completed = 0, sm_last_student_phrase = None,
      sm_initial_difficulty = None, sm_initial_style = ''modal_jazz'',
      sm_phrase_attempt_history = [], sm_current_phrase_attempts = 0,
      sm_last_recommendation = None, sm_listening_workers = 0, sm_recording_workers = 0,
      sm_evaluation_workers = 0, sm_play_requests = [], sm_events = []\<rparr>"

definition emit_event :: "Session \<Rightarrow> session_event \<Rightarrow> Session" where
  "emit_event s e = s\<lparr>sm_events := sm_events s @ [e]\<rparr>"

text \<open>
  The truth value of an optional phrase: \<^verbatim>\<open>None\<close> is false, and so is a phrase without
  notes, since \<^verbatim>\<open>Phrase\<close> defines \<^verbatim>\<open>__len__\<close>.
\<close>

definition truthy :: "Phrase option \<Rightarrow> bool" where
  "truthy po = (case po of None \<Rightarrow> False | Some ph \<Rightarrow> len ph \<noteq> 0)"

definition empty_metadata :: metadata where
  "empty_metadata =
     \<lparr>md_style = None, md_difficulty = None, md_key = None, md_tempo = None, md_bars = None,
      md_time_signature = None, md_description = None, md_id = None\<rparr>"

text \<open>The phrase \<^verbatim>\<open>Phrase([], {})\<close>, whose construction succeeds.\<close>

definition Phrase_empty :: Phrase where
  "Phrase_empty = \<lparr>ph_notes = [], ph_metadata = set_defaults empty_metadata\<rparr>"

text \<open>\<^verbatim>\<open>phrase or Phrase([], {})\<close>.\<close>

definition phrase_or_empty :: "Phrase option \<Rightarrow> Phrase" where
  "phrase_or_empty po = (if truthy po then the po else Phrase_empty)"

definition phrase_id :: "Phrase \<Rightarrow> string" where
  "phrase_id ph = (case md_id (ph_metadata ph) of None \<Rightarrow> ''unknown'' | Some i \<Rightarrow> i)"

text \<open>
  The tail of \<^verbatim>\<open>_enter_playback_state\<close>: the scheduler is given the session timing, which
  divides by the tempo, and is asked to play the current phrase.
\<close>

definition start_playback :: "Session \<Rightarrow> Session \<times> error option" where
  "start_playback s =
     (if cfg_bpm (sm_config s) = 0 then (s, Some ZeroDivisionError)
      else
        (emit_event
           (s\<lparr>sm_play_requests :=
                sm_play_requests s @ [(the (sm_current_phrase s), cfg_bpm (sm_config s))]\<rparr>)
           PhrasePlaybackStarted,
         None))"

text \<open>
  \<^verbatim>\<open>_enter_playback_state\<close>, in the order of the source. First, a recommendation of a
  new phrase clears the current one.
\<close>

definition clear_phrase_on_recommendation :: "Session \<Rightarrow> Session" where
  "clear_phrase_on_recommendation s =
     (if sm_last_recommendation s
           \<in> Some ` set [''SIMPLIFY'', ''COMPLEXIFY'', ''CURRENT_COMPLEXITY_NEW_PHRASE'']
      then s\<lparr>sm_current_phrase := None\<rparr> else s)"

text \<open>
  When there is no current phrase, the style and the difficulty of the next one: the
  initial ones, \<open>0\<close> and the empty string counting as absent, the difficulty moved by one
  on a recommendation to simplify or to complexify.
\<close>

definition target_style :: "Session \<Rightarrow> string" where
  "target_style s = (if sm_initial_style s = [] then ''modal_jazz'' else sm_initial_style s)"

definition target_difficulty :: "Session \<Rightarrow> int" where
  "target_difficulty s =
     (let initial = (case sm_initial_difficulty s of
                       None \<Rightarrow> 1
                     | Some d \<Rightarrow> (if d = 0 then 1 else d))
      in if sm_last_recommendation s = Some ''SIMPLIFY'' then max 1 (initial - 1)
         else if sm_last_recommendation s = Some ''COMPLEXIFY'' then min 5 (initial + 1)
         else initial)"

text \<open>The moved difficulty is kept, and the recommendation is cleared.\<close>

definition persist_difficulty :: "Session \<Rightarrow> Session" where
  "persist_difficulty s =
     (if sm_last_recommendation s = Some ''SIMPLIFY''
         \<or> sm_last_recommendation s = Some ''COMPLEXIFY''
      then s\<lparr>sm_initial_difficulty := Some (target_difficulty s)\<rparr> else s)
     \<lparr>sm_last_recommendation := None\<rparr>"

text \<open>The phrase chosen becomes the current one.\<close>

definition select_phrase :: "Session \<Rightarrow> Phrase \<Rightarrow> Session" where
  "select_phrase s ph =
     s\<lparr>sm_current_phrase := Some ph,
       sm_current_phrase_attempts := 0,
       sm_phrase_attempt_history :=
         (if phrase_id ph \<in> keys (sm_phrase_attempt_history s)
          then sm_phrase_attempt_history s
          else AList.update (phrase_id ph) [] (sm_phrase_attempt_history s))\<rparr>"

text \<open>
  In the branch that falls back to any phrase of the style, \<^verbatim>\<open>random\<close> is a local name
  bound only by the import in the other branch, so the call of \<^verbatim>\<open>random.choice\<close> raises.
\<close>

definition enter_playback_state :: "Collaborators \<Rightarrow> Session \<Rightarrow> Session \<times> error option" where
  "enter_playback_state env s =
     (if \<not> sm_session_active s then (s, None)
      else
        (let s1 = clear_phrase_on_recommendation s
         in if \<not> truthy (sm_current_phrase s1) then
              (let phrases =
                     lib_filter_phrases env (target_style s1) (Some (target_difficulty s1));
                   s2 = persist_difficulty s1
               in if phrases \<noteq> [] then
                    start_playback (select_phrase s2 (random_choice env phrases))
                  else
                    (let fallback_phrases = lib_filter_phrases env (target_style s1) None
                     in if fallback_phrases \<noteq> [] then (s2, Some UnboundLocalError)
                        else (s2, None)))
            else
              start_playback
                (s1\<lparr>sm_current_phrase_attempts := sm_current_phrase_attempts s1 + 1\<rparr>)))"

definition enter_listening_state :: "Session \<Rightarrow> Session" where
  "enter_listening_state s =
     (if \<not> sm_session_active s then s
      else
        emit_event
          (s\<lparr>sm_user_input_detected := False, sm_midi_notes_playing := {},
             sm_stop_listening := False,
             sm_listening_workers := Suc (sm_listening_workers s)\<rparr>)
          ListeningStarted)"

definition enter_recording_state :: "real \<Rightarrow> Session \<Rightarrow> Session \<times> error option" where
  "enter_recording_state now s =
     (if \<not> sm_session_active s then (s, None)
      else
        (let s1 = (if \<not> sm_recording_active s
                   then s\<lparr>sm_response_start_time := Some now, sm_recording_active := True,
                           sm_recorded_midi_events := [], sm_active_note_starts := []\<rparr>
                   else s);
             s2 = (if truthy (sm_current_phrase s1)
                   then s1\<lparr>sm_config := (sm_config s1)
                            \<lparr>cfg_response_measures := measures (the (sm_current_phrase s1))\<rparr>\<rparr>
                   else s1)
         in case get_response_duration (sm_config s2) of
              Inl e \<Rightarrow> (s2, Some e)
            | Inr response_duration \<Rightarrow>
                (emit_event (s2\<lparr>sm_recording_workers := Suc (sm_recording_workers s2)\<rparr>)
                   UserResponseStarted,
                 None)))"

definition enter_feedback_state :: "Session \<Rightarrow> Session" where
  "enter_feedback_state s =
     (if \<not> sm_session_active s then s
      else
        emit_event (s\<lparr>sm_evaluation_workers := Suc (sm_evaluation_workers s)\<rparr>)
          FeedbackStarted)"

definition enter_idle_state :: "Session \<Rightarrow> Session" where
  "enter_idle_state s =
     emit_event (s\<lparr>sm_session_active := False, sm_stop_listening := True\<rparr>) SessionStopped"

text \<open>
  \<^verbatim>\<open>_change_state\<close>: the new state is stored before its entry logic runs, so it stays when
  the entry logic raises; the state-changed event is then not emitted.
\<close>

definition change_state ::
  "Collaborators \<Rightarrow> real \<Rightarrow> Session \<Rightarrow> SessionState \<Rightarrow> Session \<times> error option" where
  "change_state env now s new_state =
     (let old_state = sm_state s;
          s1 = s\<lparr>sm_state := new_state\<rparr>;
          (s2, raised) =
            (case new_state of
               PLAYBACK \<Rightarrow> enter_playback_state env s1
             | LISTENING \<Rightarrow> (enter_listening_state s1, None)
             | RECORDING_RESPONSE \<Rightarrow> enter_recording_state now s1
             | FEEDBACK \<Rightarrow> (enter_feedback_state s1, None)
             | IDLE \<Rightarrow> (enter_idle_state s1, None))
      in case raised of
           Some e \<Rightarrow> (s2, Some e)
         | None \<Rightarrow> (emit_event s2 (StateChanged old_state new_state), None))"


text \<open>The callbacks of the phrase scheduler.\<close>

definition on_phrase_started :: "Session \<Rightarrow> Phrase \<Rightarrow> Session" where
  "on_phrase_started s phrase =
     (if \<not> sm_session_active s then s
      else
        (let s1 = s\<lparr>sm_current_phrase := Some phrase\<rparr>
         in if sm_state s1 = PLAYBACK then emit_event s1 PhrasePlaybackStarted else s1))"

definition on_phrase_finished ::
  "Collaborators \<Rightarrow> real \<Rightarrow> Session \<Rightarrow> Phrase \<Rightarrow> Session \<times> error option" where
  "on_phrase_finished env now s phrase =
     (if \<not> sm_session_active s then (s, None)
      else if sm_state s = PLAYBACK then
        (let s1 = s\<lparr>sm_config := (sm_config s)\<lparr>cfg_response_measures := measures phrase\<rparr>\<rparr>;
             (s2, raised) = change_state env now s1 LISTENING
         in case raised of
              Some e \<Rightarrow> (s2, Some e)
            | None \<Rightarrow> (emit_event s2 PhrasePlaybackFinished, None))
      else (s, None))"

text \<open>
  \<^verbatim>\<open>_listening_worker\<close>, from the return of \<^verbatim>\<open>_wait_for_user_input\<close> with the value
  \<open>input_detected\<close>; a wait that returns true has reset the input flag.
\<close>

definition listening_worker ::
  "Collaborators \<Rightarrow> real \<Rightarrow> Session \<Rightarrow> bool \<Rightarrow> Session \<times> error option" where
  "listening_worker env now s input_detected =
     (let s0 = s\<lparr>sm_listening_workers := sm_listening_workers s - 1\<rparr>;
          s1 = (if input_detected then s0\<lparr>sm_user_input_detected := False\<rparr> else s0)
      in if \<not> input_detected \<or> sm_stop_listening s1 then
           (if sm_session_active s1
            then change_state env now (emit_event s1 InputTimeout) PLAYBACK
            else (s1, None))
         else
           (if sm_session_active s1 then change_state env now s1 RECORDING_RESPONSE
            else (s1, None)))"

text \<open>
  \<^verbatim>\<open>_recording_worker\<close>, from the end of its sleep. The logging of the converted phrase is
  left out; an exception in it is caught and changes nothing here.
\<close>

definition recording_worker ::
  "Collaborators \<Rightarrow> real \<Rightarrow> string \<Rightarrow> Session \<Rightarrow> Session \<times> error option" where
  "recording_worker env now response_id s =
     (let s0 = s\<lparr>sm_recording_workers := sm_recording_workers s - 1,
                 sm_recording_active := False\<rparr>
      in if sm_session_active s0 then
           (let student_phrase =
                  convert_midi_recording_to_phrase (sm_config s0) response_id
                    (sm_recorded_midi_events s0);
                s1 = s0\<lparr>sm_last_student_phrase :=
                          (if truthy student_phrase then student_phrase else None)\<rparr>;
                s2 = emit_event s1 UserResponseFinished;
                s3 = s2\<lparr>sm_phrases_completed := sm_phrases_completed s2 + 1\<rparr>
            in change_state env now s3 FEEDBACK)
         else (s0, None))"

text \<open>
  \<^verbatim>\<open>_evaluate_with_claude\<close>, given what the call of the evaluator does. When the evaluator
  returns \<^verbatim>\<open>None\<close> and a phrase is missing, the fallback call raises on \<^verbatim>\<open>None.notes\<close> and
  the handler of the exception makes the fallback call with empty phrases instead.
\<close>

definition evaluate_with_claude :: "Session \<Rightarrow> eval_outcome \<Rightarrow> ClaudeEvaluation \<times> Session" where
  "evaluate_with_claude s outcome =
     (case outcome of
        Raises \<Rightarrow>
          (get_fallback_evaluation (phrase_or_empty (sm_current_phrase s))
             (phrase_or_empty (sm_last_student_phrase s)), s)
      | Returns None \<Rightarrow>
          (case (sm_current_phrase s, sm_last_student_phrase s) of
             (Some target, Some student) \<Rightarrow> (get_fallback_evaluation target student, s)
           | _ \<Rightarrow>
               (get_fallback_evaluation (phrase_or_empty (sm_current_phrase s))
                  (phrase_or_empty (sm_last_student_phrase s)), s))
      | Returns (Some evaluation) \<Rightarrow>
          (let history = sm_phrase_attempt_history s;
               history' =
                 (if truthy (sm_current_phrase s)
                     \<and> phrase_id (the (sm_current_phrase s)) \<noteq> []
                  then
                    (let pid = phrase_id (the (sm_current_phrase s));
                         grades = (case map_of history pid of None \<Rightarrow> [] | Some gs \<Rightarrow> gs)
                     in AList.update pid (grades @ [ev_grade evaluation]) history)
                  else history)
           in (evaluation,
               s\<lparr>sm_phrase_attempt_history := history',
                 sm_last_recommendation := Some (ev_recommendation evaluation)\<rparr>)))"

text \<open>
  \<^verbatim>\<open>_claude_evaluation_worker\<close>, in its two parts. The first is its \<^verbatim>\<open>try\<close> block, which
  runs without the lock; nothing in it raises, since the evaluation catches its own
  exceptions and \<^verbatim>\<open>_emit_event\<close> catches those of the subscriber. The second is the
  section that holds the lock.
\<close>

definition claude_evaluation :: "Session \<Rightarrow> eval_outcome \<Rightarrow> Session" where
  "claude_evaluation s outcome =
     (if truthy (sm_current_phrase s) \<and> truthy (sm_last_student_phrase s) then
        (let (evaluation, s') = evaluate_with_claude s outcome
         in emit_event s' (ClaudeEvaluationComplete evaluation))
      else
        emit_event s
          (ClaudeEvaluationComplete
             (get_fallback_evaluation (phrase_or_empty (sm_current_phrase s))
                (phrase_or_empty (sm_last_student_phrase s)))))"

definition claude_evaluation_finish ::
  "Collaborators \<Rightarrow> real \<Rightarrow> Session \<Rightarrow> Session \<times> error option" where
  "claude_evaluation_finish env now s =
     (let s0 = s\<lparr>sm_evaluation_workers := sm_evaluation_workers s - 1\<rparr>
      in if sm_session_active s0 then
           change_state env now
             (emit_event (s0\<lparr>sm_phrases_completed := sm_phrases_completed s0 + 1\<rparr>)
                FeedbackFinished)
             PLAYBACK
         else (s0, None))"

definition claude_evaluation_worker ::
  "Collaborators \<Rightarrow> real \<Rightarrow> Session \<Rightarrow> eval_outcome \<Rightarrow> Session \<times> error option" where
  "claude_evaluation_worker env now s outcome =
     claude_evaluation_finish env now (claude_evaluation s outcome)"

text \<open>
  The instrument input. \<^verbatim>\<open>on_midi_note_on\<close> reads the clock twice when it starts the
  recording: \<open>now\<close> for the start of the response and \<open>now'\<close> for the first event.
\<close>

definition recording_enabled :: "Session \<Rightarrow> bool" where
  "recording_enabled s =
     (sm_recording_active s \<and> sm_response_start_time s \<noteq> None
      \<and> sm_response_start_time s \<noteq> Some 0)"

definition on_midi_note_on :: "Session \<Rightarrow> int \<Rightarrow> int \<Rightarrow> real \<Rightarrow> real \<Rightarrow> Session" where
  "on_midi_note_on s note vel now now' =
     (let s0 = s\<lparr>sm_midi_notes_playing := insert note (sm_midi_notes_playing s)\<rparr>
      in if sm_state s0 = LISTENING \<and> \<not> sm_user_input_detected s0 then
           (let timestamp = now' - now
            in emit_event
                 (s0\<lparr>sm_user_input_detected := True,
                     sm_response_start_time := Some now,
                     sm_recording_active := True,
                     sm_recorded_midi_events := [note_on_event note vel timestamp],
                     sm_active_note_starts := [(note, timestamp)]\<rparr>)
                 UserInputDetected)
         else if recording_enabled s0 then
           (let timestamp = now - the (sm_response_start_time s0)
            in s0\<lparr>sm_recorded_midi_events :=
                      sm_recorded_midi_events s0 @ [note_on_event note vel timestamp],
                    sm_active_note_starts :=
                      AList.update note timestamp (sm_active_note_starts s0)\<rparr>)
         else s0)"

definition on_midi_note_off :: "Session \<Rightarrow> int \<Rightarrow> real \<Rightarrow> Session" where
  "on_midi_note_off s note now =
     (let s0 = s\<lparr>sm_midi_notes_playing := sm_midi_notes_playing s - {note}\<rparr>
      in if recording_enabled s0 then
           (let timestamp = now - the (sm_response_start_time s0)
            in s0\<lparr>sm_recorded_midi_events :=
                      sm_recorded_midi_events s0 @ [note_off_event note timestamp],
                    sm_active_note_starts := AList.delete note (sm_active_note_starts s0)\<rparr>)
         else s0)"

definition set_listening_config :: "Session \<Rightarrow> ListeningConfig \<Rightarrow> Session \<times> error option" where
  "set_listening_config s config =
     (let s1 = s\<lparr>sm_config := config\<rparr>
      in if cfg_bpm config = 0 then (s1, Some ZeroDivisionError)
         else (s1\<lparr>sm_beat_interval := 60 / real_of_int (cfg_bpm config)\<rparr>, None))"

definition manager_set_session_timing ::
  "Session \<Rightarrow> real \<Rightarrow> int \<Rightarrow> Session \<times> error option" where
  "manager_set_session_timing s session_start_time b =
     (let s1 = s\<lparr>sm_session_start_time := Some session_start_time\<rparr>
      in if b = 0 then (s1, Some ZeroDivisionError)
         else (s1\<lparr>sm_beat_interval := 60 / real_of_int b,
                   sm_config := (sm_config s1)\<lparr>cfg_bpm := b\<rparr>\<rparr>, None))"

text \<open>
  \<^verbatim>\<open>start_session\<close>; \<open>success\<close> is what \<^verbatim>\<open>start_autonomous_playback\<close> returns. A session
  start time of \<open>0\<close> counts as absent.
\<close>

definition start_session ::
  "Collaborators \<Rightarrow> real \<Rightarrow> Session \<Rightarrow> string \<Rightarrow> int \<Rightarrow> int option \<Rightarrow> bool
   \<Rightarrow> Session \<times> error option" where
  "start_session env now s style difficulty_level b success =
     (if sm_session_active s then (s, None)
      else
        (let s1 = (case b of None \<Rightarrow> s
                   | Some b' \<Rightarrow> s\<lparr>sm_config := (sm_config s)\<lparr>cfg_bpm := b'\<rparr>\<rparr>);
             s2 = s1\<lparr>sm_session_active := True, sm_phrases_completed := 0,
                     sm_session_start_time :=
                       (if sm_session_start_time s1 = None \<or> sm_session_start_time s1 = Some 0
                        then Some now else sm_session_start_time s1),
                     sm_user_input_detected := False, sm_response_start_time := None,
                     sm_midi_notes_playing := {},
                     sm_initial_difficulty := Some difficulty_level,
                     sm_initial_style := style\<rparr>;
             (s3, raised) = change_state env now s2 PLAYBACK
         in case raised of
              Some e \<Rightarrow> (s3, Some e)
            | None \<Rightarrow>
                (if success then (emit_event s3 SessionStarted, None)
                 else change_state env now (s3\<lparr>sm_session_active := False\<rparr>) IDLE)))"

definition stop_session :: "Collaborators \<Rightarrow> real \<Rightarrow> Session \<Rightarrow> Session" where
  "stop_session env now s =
     (if \<not> sm_session_active s then s
      else
        (let s1 = s\<lparr>sm_stop_listening := True, sm_session_active := False\<rparr>;
             (s2, raised) = change_state env now s1 IDLE
         in emit_event s2 SessionStopped))"

text \<open>
  What can happen to a session: the calls of the host and of the scheduler, and the
  workers reaching their final section. A worker fires only when one is pending, and a
  wait for input returns true only when the input flag is set. Each trigger is one step:
  the handlers hold the lock of the manager, and the two parts of the evaluation worker
  are taken together here.
\<close>

datatype trigger =
    StartSession string int "int option" bool
  | StopSession
  | PhraseStarted Phrase
  | PhraseFinished Phrase
  | ListeningWorker bool
  | RecordingWorker string
  | EvaluationWorker eval_outcome
  | MidiNoteOn int int real
  | MidiNoteOff int

fun fire :: "Collaborators \<Rightarrow> real \<Rightarrow> Session \<Rightarrow> trigger \<Rightarrow> Session option" where
  "fire env now s (StartSession style d b success) =
     Some (fst (start_session env now s style d b success))"
| "fire env now s StopSession = Some (stop_session env now s)"
| "fire env now s (PhraseStarted ph) = Some (on_phrase_started s ph)"
| "fire env now s (PhraseFinished ph) = Some (fst (on_phrase_finished env now s ph))"
| "fire env now s (ListeningWorker input_detected) =
     (if sm_listening_workers s = 0 \<or> (input_detected \<and> \<not> sm_user_input_detected s)
      then None
      else Some (fst (listening_worker env now s input_detected)))"
| "fire env now s (RecordingWorker response_id) =
     (if sm_recording_workers s = 0 then None
      else Some (fst (recording_worker env now response_id s)))"
| "fire env now s (EvaluationWorker outcome) =
     (if sm_evaluation_workers s = 0 then None
      else Some (fst (claude_evaluation_worker env now s outcome)))"
| "fire env now s (MidiNoteOn note vel now') = Some (on_midi_note_on s note vel now now')"
| "fire env now s (MidiNoteOff note) = Some (on_midi_note_off s note now)"

text \<open>A run: triggers with the times at which they happen.\<close>

fun run :: "Collaborators \<Rightarrow> Session \<Rightarrow> (real \<times> trigger) list \<Rightarrow> Session option" where
  "run env s [] = Some s"
| "run env s ((now, t) # ts) =
     (case fire env now s t of None \<Rightarrow> None | Some s' \<Rightarrow> run env s' ts)"



subsection \<open>A sample session\<close>

text \<open>
  A phrase of one note with the default metadata, and a library that offers this phrase
  for every style and difficulty.
\<close>

definition sample_phrase :: Phrase where
  "sample_phrase =
     \<lparr>ph_notes = [\<lparr>pitch = 60, start_time = 0, duration = 1, velocity = 80\<rparr>],
      ph_metadata = set_defaults empty_metadata\<rparr>"

definition sample_library :: Collaborators where
  "sample_library = \<lparr>lib_filter_phrases = (\<lambda>style d. [sample_phrase]), random_choice = hd\<rparr>"

text \<open>The states a run goes through, one for each trigger that can fire.\<close>

fun states_visited :: "Collaborators \<Rightarrow> Session \<Rightarrow> (real \<times> trigger) list \<Rightarrow> SessionState list" where
  "states_visited env s [] = []"
| "states_visited env s ((now, t) # ts) =
     (case fire env now s t of None \<Rightarrow> [] | Some s' \<Rightarrow> sm_state s' # states_visited env s' ts)"

text \<open>
  A session at 120 beats per minute: the phrase, of two measures, is played and answered
  by a note, which starts the recording worker and its sleep of two measures, four
  seconds; within these the session is stopped and started again, the phrase starts to
  play, and then the sleep of the worker ends.
\<close>

definition stale_recording_run :: "(real \<times> trigger) list" where
  "stale_recording_run =
     [(0, StartSession ''modal_jazz'' 1 (Some 120) True),
      (0, PhraseStarted sample_phrase),
      (4, PhraseFinished sample_phrase),
      (5, MidiNoteOn 60 80 5),
      (5.05, ListeningWorker True),
      (6, StopSession),
      (7, StartSession ''modal_jazz'' 1 (Some 120) True),
      (8, PhraseStarted sample_phrase),
      (9.05, RecordingWorker ''student_response_9'')]"


section \<open>Properties\<close>

subsection \<open>Dictionaries\<close>

lemma keys_update: "keys (AList.update k v d) = insert k (keys d)"
  by (induction d) (auto simp: keys_def)

lemma keys_delete: "keys (AList.delete k d) = keys d - {k}"
  by (auto simp: keys_def AList.delete_eq image_iff)

lemma map_of_None_keys: "(map_of d k = None) = (k \<notin> keys d)"
  by (simp add: keys_def map_of_eq_None_iff)

lemma entries_update:
  "map_of d k \<noteq> None \<Longrightarrow>
   length (filter (\<lambda>e. fst e = k) (AList.update k v d)) = length (filter (\<lambda>e. fst e = k) d)"
  by (induction d) (auto split: if_splits)

subsection \<open>Rhythm generator tempo\<close>

lemma drum_apply_bounds:
  "60 \<le> de_bpm d \<and> de_bpm d \<le> 180 \<Longrightarrow>
   60 \<le> de_bpm (drum_apply d op) \<and> de_bpm (drum_apply d op) \<le> 180"
  by (cases op) (auto simp: set_bpm_def set_genre_def start_drumming_def stop_drumming_def)

lemma drum_run_bounds:
  "60 \<le> de_bpm d \<and> de_bpm d \<le> 180 \<Longrightarrow>
   60 \<le> de_bpm (foldl drum_apply d ops) \<and> de_bpm (foldl drum_apply d ops) \<le> 180"
proof (induction ops arbitrary: d)
  case Nil
  then show ?case by simp
next
  case (Cons op ops)
  from Cons.prems have "60 \<le> de_bpm (drum_apply d op) \<and> de_bpm (drum_apply d op) \<le> 180"
    by (rule drum_apply_bounds)
  then show ?case using Cons.IH by simp
qed

text \<open>
  C9. After \<^verbatim>\<open>set_bpm(b)\<close> the stored drum tempo is \<open>max 60 (min 180 b)\<close>; the tempo of a
  drum engine stays within 60..180 after any sequence of its operations from
  construction; and for a session tempo \<open>b\<close> outside that range, the beat the drum loop
  runs at differs from the beat interval the phrase scheduler derives from \<open>b\<close>.
\<close>

theorem drum_bpm_clamped:
  "de_bpm (set_bpm d b) = max 60 (min 180 b)
   \<and> 60 \<le> de_bpm (foldl drum_apply DrumEngine_init ops)
   \<and> de_bpm (foldl drum_apply DrumEngine_init ops) \<le> 180
   \<and> ((b < 60 \<or> 180 < b) \<longrightarrow>
        set_session_timing pp sst b = Inr pp' \<longrightarrow>
           drum_beat_duration (set_bpm d b) \<noteq> pp_beat_interval pp')"
proof -
  have init: "60 \<le> de_bpm DrumEngine_init \<and> de_bpm DrumEngine_init \<le> 180"
    by (simp add: DrumEngine_init_def)
  have inv: "60 \<le> de_bpm (foldl drum_apply DrumEngine_init ops)
      \<and> de_bpm (foldl drum_apply DrumEngine_init ops) \<le> 180"
    using drum_run_bounds [OF init] .
  have differ: "drum_beat_duration (set_bpm d b) \<noteq> pp_beat_interval pp'"
    if out: "b < 60 \<or> 180 < b" and ok: "set_session_timing pp sst b = Inr pp'"
  proof -
    from ok have nz: "b \<noteq> 0" and bi: "pp_beat_interval pp' = 60 / real_of_int b"
      by (auto simp: set_session_timing_def split: if_splits)
    have c: "max 60 (min 180 b) \<noteq> b" using out by auto
    have "60 / real_of_int (max 60 (min 180 b)) \<noteq> 60 / real_of_int b"
    proof
      assume "60 / real_of_int (max 60 (min 180 b)) = 60 / real_of_int b"
      moreover have "real_of_int (max 60 (min 180 b)) \<noteq> 0" by auto
      ultimately have "real_of_int (max 60 (min 180 b)) = real_of_int b"
        using nz by (simp add: field_simps)
      then show False using c by simp
    qed
    then show ?thesis by (simp add: drum_beat_duration_def set_bpm_def bi)
  qed
  show ?thesis using inv differ by (simp add: set_bpm_def)
qed

theorem drum_bpm_clamped_witness:
  "de_bpm (set_bpm DrumEngine_init 200) = 180
   \<and> set_session_timing PhrasePlayer_init 0 200
       = Inr \<lparr>pp_session_start_time = Some 0, pp_beat_interval = 60 / 200, pp_current_bpm = 200\<rparr>
   \<and> drum_beat_duration (set_bpm DrumEngine_init 200) \<noteq> 60 / 200"
proof -
  have t: "set_session_timing PhrasePlayer_init 0 200
       = Inr \<lparr>pp_session_start_time = Some 0, pp_beat_interval = 60 / 200, pp_current_bpm = 200\<rparr>"
    by (simp add: set_session_timing_def PhrasePlayer_init_def)
  have "drum_beat_duration (set_bpm DrumEngine_init 200)
      \<noteq> pp_beat_interval \<lparr>pp_session_start_time = Some 0, pp_beat_interval = 60 / 200,
            pp_current_bpm = 200\<rparr>"
    using drum_bpm_clamped [of DrumEngine_init 200 "[]" PhrasePlayer_init 0
        "\<lparr>pp_session_start_time = Some 0, pp_beat_interval = 60 / 200, pp_current_bpm = 200\<rparr>"] t
    by simp
  moreover have "de_bpm (set_bpm DrumEngine_init 200) = 180"
    by (simp add: set_bpm_def)
  ultimately show ?thesis using t by simp
qed

subsection \<open>Construction of notes and phrases\<close>

text \<open>
  C7 as stated fails in its aside that a note is immutable once constructed: the note
  constructed with pitch 60 accepts the assignment of pitch 200, a pitch with which no
  note can be constructed.
\<close>

theorem construction_validation_counterexample:
  "MusicalNote_init 60 0 1 80
     = Inr \<lparr>pitch = 60, start_time = 0, duration = 1, velocity = 80\<rparr>
   \<and> assign_pitch \<lparr>pitch = 60, start_time = 0, duration = 1, velocity = 80\<rparr> 200
       = Inr \<lparr>pitch = 200, start_time = 0, duration = 1, velocity = 80\<rparr>
   \<and> MusicalNote_init 200 0 1 80 = Inl (ValueError ''MIDI pitch must be 0-127'')"
  by (simp add: MusicalNote_init_def assign_pitch_def)

text \<open>
  C7, as the code has it. Constructing a note succeeds exactly when
  \<open>0 \<le> pitch \<le> 127\<close>, \<open>0 \<le> velocity \<le> 127\<close>, the start offset is not negative and the
  duration is positive, and raises otherwise; the constructed note holds the four values
  given. Constructing a phrase succeeds exactly when, after the defaults for absent
  keys, the difficulty is in 1..5, the bar count is 1, 2 or 4 and the tempo is positive,
  so every constructed phrase has such metadata. The ranges are checked at construction
  only: an assignment to a field of a note is accepted whatever the value.
\<close>

theorem construction_validation:
  "(\<exists>n. MusicalNote_init p st d v = Inr n)
     = (0 \<le> p \<and> p \<le> 127 \<and> 0 \<le> v \<and> v \<le> 127 \<and> 0 \<le> st \<and> 0 < d)
   \<and> (\<exists>e. MusicalNote_init p st d v = Inl e)
     = (\<not> (0 \<le> p \<and> p \<le> 127 \<and> 0 \<le> v \<and> v \<le> 127 \<and> 0 \<le> st \<and> 0 < d))
   \<and> (MusicalNote_init p st d v = Inr n
        \<longrightarrow> pitch n = p \<and> start_time n = st \<and> duration n = d \<and> velocity n = v)
   \<and> (Phrase_init ns md = Inr ph
        \<longrightarrow> 1 \<le> difficulty ph \<and> difficulty ph \<le> 5 \<and> bars ph \<in> {1, 2, 4} \<and> 0 < tempo ph
            \<and> ph_notes ph = ns)
   \<and> (\<exists>ph. Phrase_init ns md = Inr ph)
     = (1 \<le> the (md_difficulty (set_defaults md)) \<and> the (md_difficulty (set_defaults md)) \<le> 5
        \<and> the (md_bars (set_defaults md)) \<in> {1, 2, 4}
        \<and> 0 < the (md_tempo (set_defaults md)))
   \<and> assign_pitch m x = Inr (m\<lparr>pitch := x\<rparr>)
   \<and> assign_velocity m x = Inr (m\<lparr>velocity := x\<rparr>)
   \<and> assign_start_time m y = Inr (m\<lparr>start_time := y\<rparr>)
   \<and> assign_duration m y = Inr (m\<lparr>duration := y\<rparr>)"
  by (auto simp: MusicalNote_init_def Phrase_init_def validate_metadata_def Let_def
        difficulty_def bars_def tempo_def assign_pitch_def assign_velocity_def
        assign_start_time_def assign_duration_def split: if_splits sum.splits)

theorem construction_validation_witness:
  "pitch \<lparr>pitch = 60, start_time = 0, duration = 1, velocity = 80\<rparr> = 60
   \<and> (\<exists>n. MusicalNote_init 60 0 1 80 = Inr n)
   \<and> (\<exists>e. MusicalNote_init 128 0 1 80 = Inl e)
   \<and> (\<exists>e. MusicalNote_init 60 0 0 80 = Inl e)"
proof -
  have ok: "MusicalNote_init 60 0 1 80
      = Inr \<lparr>pitch = 60, start_time = 0, duration = 1, velocity = 80\<rparr>"
    by (simp add: MusicalNote_init_def)
  have a: "pitch \<lparr>pitch = 60, start_time = 0, duration = 1, velocity = 80\<rparr> = 60"
    using construction_validation
      [of 60 0 1 80 "\<lparr>pitch = 60, start_time = 0, duration = 1, velocity = 80\<rparr>"] ok
    by simp
  have b: "\<exists>n. MusicalNote_init 60 0 1 80 = Inr n"
    using ok by simp
  have c: "\<exists>e. MusicalNote_init 128 0 1 80 = Inl e"
    using construction_validation [of 128 0 1 80] by simp
  have d: "\<exists>e. MusicalNote_init 60 0 0 80 = Inl e"
    using construction_validation [of 60 0 0 80] by simp
  show ?thesis using a b c d by simp
qed

subsection \<open>MIDI event processor\<close>

text \<open>
  C1. In any processor state in which pitch \<open>p\<close> is open, opened at \<open>t1\<close> with velocity
  \<open>v1\<close>, a note-on message for \<open>p\<close> with non-zero velocity \<open>v\<close> at time \<open>t2\<close> returns
  one completed record for \<open>p\<close> with velocity \<open>v1\<close>, duration \<open>t2 - t1\<close> and start
  \<open>t1\<close> relative to the session start, appends exactly that record to the completed
  notes, and leaves \<open>(v, t2)\<close> as the open note of \<open>p\<close>, still one entry for \<open>p\<close>.
\<close>

theorem retrigger_closes_open_note:
  assumes opened: "map_of (np_active_notes s) p = Some (v1, t1)"
    and vel: "v \<noteq> 0"
    and on: "status AND 0xF0 = 0x90"
    and t2: "t2 = (case timestamp of None \<Rightarrow> now | Some t \<Rightarrow> t)"
    and sst: "sst = (case np_session_start_time s of None \<Rightarrow> t2 | Some x \<Rightarrow> x)"
    and n: "n = \<lparr>mn_pitch = p, mn_velocity = v1, mn_timestamp = t1 - sst,
                 mn_duration = Some (t2 - t1)\<rparr>"
    and r: "r = process_midi_event s now (status # p # v # extra) timestamp"
  shows "fst r = Some n
    \<and> np_completed_notes (snd r) = np_completed_notes s @ [n]
    \<and> np_session_start_time (snd r) = Some sst
    \<and> np_active_notes (snd r) = AList.update p (v, t2) (np_active_notes s)
    \<and> map_of (np_active_notes (snd r)) p = Some (v, t2)
    \<and> length (filter (\<lambda>e. fst e = p) (np_active_notes (snd r)))
        = length (filter (\<lambda>e. fst e = p) (np_active_notes s))"
proof -
  have eq: "r = (Some n,
      s\<lparr>np_session_start_time := Some sst,
        np_completed_notes := np_completed_notes s @ [n],
        np_active_notes := AList.update p (v, t2) (np_active_notes s)\<rparr>)"
    using opened vel on unfolding r t2 sst n
    by (cases "np_session_start_time s"; cases timestamp)
       (simp_all add: process_midi_event_def handle_note_on_def Let_def)
  have cnt: "length (filter (\<lambda>e. fst e = p) (AList.update p (v, t2) (np_active_notes s)))
      = length (filter (\<lambda>e. fst e = p) (np_active_notes s))"
    using opened by (intro entries_update) simp
  show ?thesis using cnt by (simp add: eq update_Some_unfold)
qed

theorem retrigger_closes_open_note_witness:
  "fst (process_midi_event NoteProcessor_init 0 [144, 60, 100] (Some 5)) = None
   \<and> fst (process_midi_event
            (snd (process_midi_event NoteProcessor_init 0 [144, 60, 100] (Some 5)))
            0 [144, 60, 90] (Some 7))
       = Some \<lparr>mn_pitch = 60, mn_velocity = 100, mn_timestamp = 0, mn_duration = Some 2\<rparr>
   \<and> np_completed_notes
        (snd (process_midi_event
               (snd (process_midi_event NoteProcessor_init 0 [144, 60, 100] (Some 5)))
               0 [144, 60, 90] (Some 7)))
       = [\<lparr>mn_pitch = 60, mn_velocity = 100, mn_timestamp = 0, mn_duration = Some 2\<rparr>]"
proof -
  have and1: "(144::int) AND 240 = 144" by simp
  have first: "process_midi_event NoteProcessor_init 0 [144, 60, 100] (Some 5)
      = (None, \<lparr>np_active_notes = [(60, (100, 5))], np_completed_notes = [],
                np_session_start_time = Some 5\<rparr>)"
    by (simp add: process_midi_event_def handle_note_on_def NoteProcessor_init_def Let_def and1)
  show ?thesis
    using retrigger_closes_open_note
      [where s = "\<lparr>np_active_notes = [(60, (100, 5))], np_completed_notes = [],
            np_session_start_time = Some 5\<rparr>"
         and p = 60 and ?v1.0 = 100 and ?t1.0 = 5 and v = 90 and status = 144
         and ?t2.0 = 7 and timestamp = "Some 7" and now = 0 and sst = 5
         and n = "\<lparr>mn_pitch = 60, mn_velocity = 100, mn_timestamp = 0,
                   mn_duration = Some 2\<rparr>"
         and r = "process_midi_event \<lparr>np_active_notes = [(60, (100, 5))],
            np_completed_notes = [], np_session_start_time = Some 5\<rparr> 0 [144, 60, 90] (Some 7)"
         and extra = "[]"]
    by (simp add: first and1)
qed

subsection \<open>Downbeat computation\<close>

lemma py_mod_range:
  assumes "0 < y"
  shows "0 \<le> py_mod x y \<and> py_mod x y < y"
proof -
  have "of_int \<lfloor>x / y\<rfloor> \<le> x / y" by simp
  then have "of_int \<lfloor>x / y\<rfloor> * y \<le> x"
    using assms by (simp only: pos_le_divide_eq)
  then have a: "y * of_int \<lfloor>x / y\<rfloor> \<le> x" by (simp add: mult.commute)
  have "x / y < of_int \<lfloor>x / y\<rfloor> + 1" by linarith
  then have "x < (of_int \<lfloor>x / y\<rfloor> + 1) * y"
    using assms by (simp only: pos_divide_less_eq)
  then have b: "x < y * of_int \<lfloor>x / y\<rfloor> + y" by (simp add: algebra_simps)
  show ?thesis using a b by (simp add: py_mod_def)
qed

lemma downbeat_value:
  assumes "pp_session_start_time pp = Some s"
  shows "calculate_next_downbeat pp c =
     c + (if py_mod ((c - s) / pp_beat_interval pp) 4 < 0.001 then 0
          else 4 - py_mod ((c - s) / pp_beat_interval pp) 4) * pp_beat_interval pp"
  using assms by (simp add: calculate_next_downbeat_def BEATS_PER_MEASURE_def Let_def)

lemma ceiling_measure:
  fixes x :: real
  assumes "0 < py_mod x 4"
  shows "of_int \<lceil>x / 4\<rceil> = (x + 4 - py_mod x 4) / 4"
proof -
  have m: "py_mod x 4 = x - 4 * of_int \<lfloor>x / 4\<rfloor>" by (simp add: py_mod_def)
  have lt: "py_mod x 4 < 4" using py_mod_range [of 4 x] by simp
  have "\<lceil>x / 4\<rceil> = \<lfloor>x / 4\<rfloor> + 1"
  proof (rule ceiling_unique)
    show "of_int (\<lfloor>x / 4\<rfloor> + 1) - 1 < x / 4" using assms m by simp
    show "x / 4 \<le> of_int (\<lfloor>x / 4\<rfloor> + 1)" using lt m by simp
  qed
  then show ?thesis using m by simp
qed

text \<open>
  C5, as the code has it. With a timing anchor \<open>s\<close> and a positive beat interval \<open>b\<close>,
  the next-downbeat time \<open>d\<close> computed at time \<open>c\<close> satisfies \<open>c \<le> d < c + 4 * b\<close>. Let
  \<open>m\<close> be the position of \<open>c\<close> in its measure, in beats. When \<open>m\<close> is \<open>0\<close> or at least
  \<open>0.001\<close>, \<open>d - s\<close> is \<open>c - s\<close> rounded up to a multiple of the measure \<open>4 * b\<close>. When
  \<open>m < 0.001\<close> the computation returns \<open>d = c\<close>: up to a thousandth of a beat after a
  measure boundary playback starts at once instead of waiting for the next boundary.
  The playback worker starts emitting at \<open>d\<close>.
\<close>

theorem downbeat_alignment:
  assumes sst: "pp_session_start_time pp = Some s"
    and b: "0 < pp_beat_interval pp"
  shows "c \<le> calculate_next_downbeat pp c
    \<and> calculate_next_downbeat pp c < c + 4 * pp_beat_interval pp
    \<and> (0.001 \<le> py_mod ((c - s) / pp_beat_interval pp) 4 \<or>
         py_mod ((c - s) / pp_beat_interval pp) 4 = 0 \<longrightarrow>
         calculate_next_downbeat pp c - s =
           4 * pp_beat_interval pp * of_int \<lceil>(c - s) / (4 * pp_beat_interval pp)\<rceil>)
    \<and> (py_mod ((c - s) / pp_beat_interval pp) 4 < 0.001 \<longrightarrow>
         calculate_next_downbeat pp c = c)
    \<and> playback_start pp c = calculate_next_downbeat pp c"
proof -
  define bi where "bi = pp_beat_interval pp"
  define x where "x = (c - s) / bi"
  define m where "m = py_mod x 4"
  have bi: "0 < bi" using b by (simp add: bi_def)
  have rng: "0 \<le> m \<and> m < 4" using py_mod_range [of 4 x] by (simp add: m_def)
  have val: "calculate_next_downbeat pp c = c + (if m < 0.001 then 0 else 4 - m) * bi"
    using downbeat_value [OF sst] by (simp add: m_def x_def bi_def)
  have ge: "c \<le> calculate_next_downbeat pp c"
    using rng bi by (simp add: val)
  have lt: "calculate_next_downbeat pp c < c + 4 * bi"
  proof (cases "m < 0.001")
    case True
    then show ?thesis using bi by (simp add: val)
  next
    case False
    then have "0 < m" by simp
    then have "(4 - m) * bi < 4 * bi" using bi by simp
    then show ?thesis using False by (simp add: val)
  qed
  have xs: "c - s = x * bi" using bi by (simp add: x_def)
  have quot: "(c - s) / (4 * bi) = x / 4" using bi by (simp add: x_def)
  have big: "calculate_next_downbeat pp c - s = 4 * bi * of_int \<lceil>(c - s) / (4 * bi)\<rceil>"
    if "0.001 \<le> m"
  proof -
    from that have pos: "0 < py_mod x 4" by (simp add: m_def)
    have "of_int \<lceil>x / 4\<rceil> = (x + 4 - m) / 4"
      using ceiling_measure [OF pos] by (simp add: m_def)
    then have "4 * bi * of_int \<lceil>(c - s) / (4 * bi)\<rceil> = (x + 4 - m) * bi"
      by (simp add: quot)
    also have "\<dots> = c - s + (4 - m) * bi" by (simp add: xs algebra_simps)
    finally show ?thesis using that by (simp add: val)
  qed
  have zero: "calculate_next_downbeat pp c - s = 4 * bi * of_int \<lceil>(c - s) / (4 * bi)\<rceil>"
    if "m = 0"
  proof -
    from that have "x = 4 * of_int \<lfloor>x / 4\<rfloor>" by (simp add: m_def py_mod_def)
    then have "x / 4 = of_int \<lfloor>x / 4\<rfloor>" by simp
    then have q: "of_int \<lceil>x / 4\<rceil> = x / 4" by (metis ceiling_of_int)
    have "4 * bi * of_int \<lceil>(c - s) / (4 * bi)\<rceil> = 4 * bi * (x / 4)"
      by (simp only: quot q)
    also have "\<dots> = x * bi" by simp
    finally have "4 * bi * of_int \<lceil>(c - s) / (4 * bi)\<rceil> = c - s" by (simp only: xs)
    moreover have "calculate_next_downbeat pp c = c" using that by (simp add: val)
    ultimately show ?thesis by simp
  qed
  have small: "calculate_next_downbeat pp c = c" if "m < 0.001"
    using that by (simp add: val)
  have start: "playback_start pp c = calculate_next_downbeat pp c"
    using sst ge by (auto simp: playback_start_def Let_def)
  show ?thesis
    using ge lt big zero small start by (simp add: bi_def m_def x_def)
qed

text \<open>
  At 100 bpm, 0.1 beat into a measure, the first note waits for the next downbeat, one
  measure (2.4 s) after the anchor.
\<close>

theorem downbeat_alignment_witness:
  "calculate_next_downbeat
     \<lparr>pp_session_start_time = Some 0, pp_beat_interval = 60 / 100, pp_current_bpm = 100\<rparr>
     (3 / 50) = 12 / 5"
proof -
  let ?pp = "\<lparr>pp_session_start_time = Some 0, pp_beat_interval = 60 / 100, pp_current_bpm = 100\<rparr>"
  have m: "py_mod ((3 / 50 - 0) / pp_beat_interval ?pp) 4 = 1 / 10"
    by (simp add: py_mod_def)
  have c: "\<lceil>(3 / 50 - 0) / (4 * pp_beat_interval ?pp)\<rceil> = 1"
    by (simp add: ceiling_eq_iff)
  have "calculate_next_downbeat ?pp (3 / 50) - 0
      = 4 * pp_beat_interval ?pp * of_int \<lceil>(3 / 50 - 0) / (4 * pp_beat_interval ?pp)\<rceil>"
    using downbeat_alignment [of ?pp 0 "3 / 50"] m by simp
  then show ?thesis unfolding c by simp
qed

text \<open>
  C5 as stated fails: at 120 bpm, 0.1 ms (0.0002 beat) after the anchor, the computed
  downbeat is the current time itself, which is not a multiple of the 2 s measure.
\<close>

theorem downbeat_counterexample:
  "calculate_next_downbeat
     \<lparr>pp_session_start_time = Some 0, pp_beat_interval = 60 / 120, pp_current_bpm = 120\<rparr>
     (1 / 10000) - 0
   \<noteq> 4 * (60 / 120) * of_int \<lceil>(1 / 10000 - 0) / (4 * (60 / 120 :: real))\<rceil>"
proof -
  have f: "\<lfloor>(1::real) / 20000\<rfloor> = 0" by simp
  have c: "\<lceil>(1::real) / 20000\<rceil> = 1" by (simp add: ceiling_eq_iff)
  show ?thesis
    by (simp add: calculate_next_downbeat_def BEATS_PER_MEASURE_def Let_def py_mod_def f c)
qed

subsection \<open>Synthesizer\<close>

lemma length_sample_loop:
  "length (fst (sample_loop env dt tss rel tsr a i k)) = k"
  by (induction k arbitrary: a i) (simp_all add: Let_def split_beta)

lemma length_generate_note_samples:
  "length (fst (generate_note_samples s a n ct rt)) = n"
  by (simp add: generate_note_samples_def Let_def length_sample_loop)

lemma process_active_keys:
  "map fst (fst (process_active s n ct d buffer)) = map fst d"
  by (induction d arbitrary: buffer) (auto simp: Let_def split_beta)

lemma process_active_length:
  "length buffer = n \<Longrightarrow> length (snd (process_active s n ct d buffer)) = n"
proof (induction d arbitrary: buffer)
  case Nil
  then show ?case by simp
next
  case (Cons e d)
  obtain k nt where e: "e = (k, nt)" by (cases e)
  obtain nb nt' where g: "generate_note_samples s nt n ct None = (nb, nt')"
    by (cases "generate_note_samples s nt n ct None")
  have "length nb = n" using length_generate_note_samples [of s nt n ct None] g by simp
  then have "length (add_buffers buffer nb) = n" using Cons.prems by (simp add: add_buffers_def)
  from Cons.IH [OF this] show ?case using e g by (simp add: Let_def split_beta)
qed

lemma process_released_keys:
  "keys (fst (process_released s n ct d buffer)) \<subseteq> keys d"
proof (induction d arbitrary: buffer)
  case Nil
  then show ?case by simp
next
  case (Cons e d)
  obtain k nt rt where e: "e = (k, (nt, rt))" by (cases e) auto
  have "keys (fst (process_released s n ct d
      (add_buffers buffer (fst (generate_note_samples s nt n ct (Some rt)))))) \<subseteq> keys d"
    by (rule Cons.IH)
  then show ?case unfolding e
    by (auto simp: Let_def split_beta keys_def)
qed

lemma process_released_length:
  "length buffer = n \<Longrightarrow> length (snd (process_released s n ct d buffer)) = n"
proof (induction d arbitrary: buffer)
  case Nil
  then show ?case by simp
next
  case (Cons e d)
  obtain k nt rt where e: "e = (k, (nt, rt))" by (cases e) auto
  obtain nb nt' where g: "generate_note_samples s nt n ct (Some rt) = (nb, nt')"
    by (cases "generate_note_samples s nt n ct (Some rt)")
  have "length nb = n" using length_generate_note_samples [of s nt n ct "Some rt"] g by simp
  then have "length (add_buffers buffer nb) = n" using Cons.prems by (simp add: add_buffers_def)
  from Cons.IH [OF this] show ?case using e g by (simp add: Let_def split_beta)
qed

lemma clip_range: "- 1 \<le> clip x (- 1) 1 \<and> clip x (- 1) 1 \<le> 1"
  by (simp add: clip_def)

text \<open>
  C6. With a non-zero sample rate, \<^verbatim>\<open>generate_audio_buffer(n)\<close> returns a buffer in every
  synthesizer state, whatever notes are sounding or releasing; a returned buffer has
  exactly \<open>n\<close> samples and each of them lies in \<open>[-1, 1]\<close>.
\<close>

theorem generate_bounded:
  "(syn_sample_rate s \<noteq> 0 \<longrightarrow> (\<exists>buf. fst (generate_audio_buffer s now n) = Inr buf))
   \<and> (fst (generate_audio_buffer s now n) = Inr buf \<longrightarrow>
        length buf = n \<and> (\<forall>x \<in> set buf. - 1 \<le> x \<and> x \<le> 1))"
proof -
  obtain a b1 where pa:
    "process_active s n now (syn_active_notes s) (replicate n 0) = (a, b1)"
    by (cases "process_active s n now (syn_active_notes s) (replicate n 0)")
  obtain r b2 where pr: "process_released s n now (syn_released_notes s) b1 = (r, b2)"
    by (cases "process_released s n now (syn_released_notes s) b1")
  have "length b1 = n"
    using process_active_length [of "replicate n 0" n s now "syn_active_notes s"] pa by simp
  then have l2: "length b2 = n"
    using process_released_length [of b1 n s now "syn_released_notes s"] pr by simp
  show ?thesis
    using pa pr l2 clip_range
    by (auto simp: generate_audio_buffer_def Let_def split: if_splits)
qed

theorem generate_bounded_witness:
  "\<exists>buf. fst (generate_audio_buffer
                (note_on (AudioSynthesizer_init 44100 512) 0 69 127) (1 / 100) 4) = Inr buf
     \<and> length buf = 4 \<and> - 1 \<le> buf ! 0 \<and> buf ! 0 \<le> 1"
proof -
  let ?s = "note_on (AudioSynthesizer_init 44100 512) 0 69 127"
  have sr: "syn_sample_rate ?s \<noteq> 0"
    by (simp add: note_on_def AudioSynthesizer_init_def Let_def)
  from generate_bounded [of ?s "1 / 100" 4] sr
  obtain buf where buf: "fst (generate_audio_buffer ?s (1 / 100) 4) = Inr buf"
    by blast
  from generate_bounded [of ?s "1 / 100" 4 buf] buf
  have len: "length buf = 4" and rng: "\<forall>x \<in> set buf. - 1 \<le> x \<and> x \<le> 1"
    by blast+
  from len have "buf ! 0 \<in> set buf" by simp
  with rng have "- 1 \<le> buf ! 0 \<and> buf ! 0 \<le> 1" by blast
  with buf len show ?thesis by blast
qed

text \<open>
  C8. For a pitch that is not in the active notes, \<^verbatim>\<open>note_off\<close> returns the synthesizer
  unchanged, so a following \<^verbatim>\<open>generate_audio_buffer\<close> gives the same buffer and the same
  state as it would have without the call.
\<close>

theorem note_off_noop:
  assumes "p \<notin> keys (syn_active_notes s)"
  shows "note_off s t p = s
    \<and> generate_audio_buffer (note_off s t p) now n = generate_audio_buffer s now n"
proof -
  have "map_of (syn_active_notes s) p = None" using assms by (simp add: map_of_None_keys)
  then have "note_off s t p = s" by (simp add: note_off_def)
  then show ?thesis by simp
qed

theorem note_off_noop_witness:
  "note_off (note_on (AudioSynthesizer_init 44100 512) 0 62 100) 1 60
     = note_on (AudioSynthesizer_init 44100 512) 0 62 100"
proof -
  have "(60::int) \<notin> keys (syn_active_notes (note_on (AudioSynthesizer_init 44100 512) 0 62 100))"
    by (simp add: note_on_def AudioSynthesizer_init_def Let_def keys_def)
  from note_off_noop [OF this] show ?thesis by simp
qed

lemma disjoint_note_on: "disjoint_notes s \<Longrightarrow> disjoint_notes (note_on s now p v)"
  by (auto simp: disjoint_notes_def note_on_def Let_def keys_update keys_delete)

lemma disjoint_note_off: "disjoint_notes s \<Longrightarrow> disjoint_notes (note_off s now p)"
  by (auto simp: disjoint_notes_def note_off_def keys_update keys_delete split: option.splits)

lemma disjoint_generate:
  assumes "disjoint_notes s"
  shows "disjoint_notes (snd (generate_audio_buffer s now n))"
proof -
  obtain a b1 where pa:
    "process_active s n now (syn_active_notes s) (replicate n 0) = (a, b1)"
    by (cases "process_active s n now (syn_active_notes s) (replicate n 0)")
  obtain r b2 where pr: "process_released s n now (syn_released_notes s) b1 = (r, b2)"
    by (cases "process_released s n now (syn_released_notes s) b1")
  have ka: "keys a = keys (syn_active_notes s)"
    using process_active_keys [of s n now "syn_active_notes s" "replicate n 0"] pa
    by (simp add: keys_def) (metis image_set)
  have kr: "keys r \<subseteq> keys (syn_released_notes s)"
    using process_released_keys [of s n now "syn_released_notes s" b1] pr by simp
  show ?thesis using assms pa pr ka kr
    by (auto simp: generate_audio_buffer_def Let_def disjoint_notes_def)
qed

text \<open>
  C10. No pitch is a key of both the active and the released notes: this holds of a
  new synthesizer, and \<^verbatim>\<open>note_on\<close>, \<^verbatim>\<open>note_off\<close>, \<^verbatim>\<open>generate_audio_buffer\<close> and
  \<^verbatim>\<open>stop_all_notes\<close> each preserve it.
\<close>

theorem synth_disjoint:
  "disjoint_notes (AudioSynthesizer_init sr bs)
   \<and> (disjoint_notes s \<longrightarrow>
        disjoint_notes (note_on s now p v)
        \<and> disjoint_notes (note_off s now p)
        \<and> disjoint_notes (snd (generate_audio_buffer s now n))
        \<and> disjoint_notes (stop_all_notes s))"
  using disjoint_note_on disjoint_note_off disjoint_generate
  by (simp add: disjoint_notes_def AudioSynthesizer_init_def stop_all_notes_def keys_def)

theorem synth_disjoint_witness:
  "disjoint_notes (note_off (note_on (AudioSynthesizer_init 44100 512) 0 60 100) 1 60)
   \<and> keys (syn_released_notes
             (note_off (note_on (AudioSynthesizer_init 44100 512) 0 60 100) 1 60)) = {60}"
proof -
  have a: "disjoint_notes (AudioSynthesizer_init 44100 512)"
    using synth_disjoint [of 44100 512] by simp
  have b: "disjoint_notes (note_on (AudioSynthesizer_init 44100 512) 0 60 100)"
    using synth_disjoint [of 44100 512 "AudioSynthesizer_init 44100 512" 0 60 100] a by simp
  have c: "disjoint_notes (note_off (note_on (AudioSynthesizer_init 44100 512) 0 60 100) 1 60)"
    using synth_disjoint
      [of 44100 512 "note_on (AudioSynthesizer_init 44100 512) 0 60 100" 1 60] b
    by simp
  have d: "keys (syn_released_notes
             (note_off (note_on (AudioSynthesizer_init 44100 512) 0 60 100) 1 60)) = {60}"
    by (simp add: note_on_def note_off_def AudioSynthesizer_init_def Let_def keys_def)
  show ?thesis using c d by simp
qed

subsection \<open>Conversion of a recording\<close>

lemma open_note_snoc_on:
  "open_note p (pre @ [note_on_event q v t]) = (if q = p then Some (v, t) else open_note p pre)"
  by (simp add: open_note_def concerns_def)

lemma open_note_snoc_off:
  "open_note p (pre @ [note_off_event q t]) = (if q = p then None else open_note p pre)"
  by (simp add: open_note_def concerns_def)

lemma open_note_Nil: "open_note p [] = None"
  by (simp add: open_note_def)

lemma MusicalNote_init_Inr:
  "MusicalNote_init p st d v = Inr n \<Longrightarrow>
   n = \<lparr>pitch = p, start_time = st, duration = d, velocity = v\<rparr>"
  by (auto simp: MusicalNote_init_def split: if_splits)

lemma pair_events_spec:
  assumes "pair_events bps es active ns = Inr (ns', active')"
    and "\<And>p. map_of active p = open_note p pre"
  shows "ns' = ns @ paired_notes bps pre es
    \<and> (\<forall>p. map_of active' p = open_note p (pre @ es))"
  using assms
proof (induction es arbitrary: active ns pre)
  case Nil
  then show ?case by simp
next
  case (Cons e es)
  show ?case
  proof (cases e)
    case (note_on_event q v t)
    have inv: "\<And>p. map_of (AList.update q (v, t) active) p
        = open_note p (pre @ [note_on_event q v t])"
      using Cons.prems(2) by (simp add: update_conv' open_note_snoc_on)
    from Cons.prems(1) have run:
      "pair_events bps es (AList.update q (v, t) active) ns = Inr (ns', active')"
      by (simp add: note_on_event)
    from Cons.IH [OF run inv] show ?thesis by (simp add: note_on_event)
  next
    case (note_off_event q t')
    show ?thesis
    proof (cases "map_of active q")
      case None
      then have closed: "open_note q pre = None" using Cons.prems(2) by simp
      have inv: "\<And>p. map_of active p = open_note p (pre @ [note_off_event q t'])"
        using Cons.prems(2) closed by (auto simp: open_note_snoc_off)
      from Cons.prems(1) None have run: "pair_events bps es active ns = Inr (ns', active')"
        by (simp add: note_off_event)
      from Cons.IH [OF run inv] closed show ?thesis by (simp add: note_off_event)
    next
      case (Some vt)
      obtain v0 t0 where vt: "vt = (v0, t0)" by (cases vt)
      have opened: "open_note q pre = Some (v0, t0)" using Cons.prems(2) Some vt by simp
      from Cons.prems(1) Some vt obtain n where
        mk: "MusicalNote_init q (t0 * bps) (max 0.1 ((t' - t0) * bps)) v0 = Inr n"
        and run: "pair_events bps es (AList.delete q active) (ns @ [n]) = Inr (ns', active')"
        by (auto simp: note_off_event Let_def split: sum.splits)
      have n: "n = \<lparr>pitch = q, start_time = t0 * bps,
          duration = max 0.1 ((t' - t0) * bps), velocity = v0\<rparr>"
        using MusicalNote_init_Inr [OF mk] .
      have inv: "\<And>p. map_of (AList.delete q active) p
          = open_note p (pre @ [note_off_event q t'])"
        using Cons.prems(2) by (simp add: delete_conv' open_note_snoc_off)
      from Cons.IH [OF run inv] opened n show ?thesis by (simp add: note_off_event)
    qed
  qed
qed

lemma close_open_notes_spec:
  "close_open_notes bps active ns = Inr ns' \<Longrightarrow> ns' = ns @ map (open_entry bps) active"
proof (induction active arbitrary: ns)
  case Nil
  then show ?case by simp
next
  case (Cons e active)
  obtain k v0 t0 where e: "e = (k, (v0, t0))" by (cases e) auto
  from Cons.prems obtain n where
    mk: "MusicalNote_init k (t0 * bps) 0.5 v0 = Inr n"
    and run: "close_open_notes bps active (ns @ [n]) = Inr ns'"
    by (auto simp: e Let_def split: sum.splits)
  have "n = open_entry bps e"
    using MusicalNote_init_Inr [OF mk] by (simp add: e open_entry_def)
  with Cons.IH [OF run] show ?case by simp
qed

lemma since_last_off_snoc:
  "since_last_off p (pre @ [e]) = (if is_off p e then [] else since_last_off p pre @ [e])"
  by (simp add: since_last_off_def)

lemma length_since_last_off: "length (since_last_off p pre) \<le> length pre"
  using length_takeWhile_le [of "\<lambda>e. \<not> is_off p e" "rev pre"]
  by (simp add: since_last_off_def)

lemma open_note_iff_on:
  "(open_note p pre = None) = (\<forall>e \<in> set (since_last_off p pre). \<not> is_on p e)"
proof (induction pre rule: rev_induct)
  case Nil
  then show ?case by (simp add: open_note_Nil since_last_off_def)
next
  case (snoc e pre)
  then show ?case
    by (cases e) (auto simp: open_note_snoc_on open_note_snoc_off since_last_off_snoc)
qed

lemma opened_at_kept:
  assumes "open_note p pre \<noteq> None" and "\<not> is_off p e"
  shows "opened_at p (pre @ [e]) = opened_at p pre"
proof -
  have "\<not> (\<forall>e \<in> set (since_last_off p pre). \<not> is_on p e)"
    using assms(1) unfolding open_note_iff_on by blast
  then obtain x where x: "x \<in> set (since_last_off p pre)" "is_on p x"
    by blast
  then have tw: "takeWhile (\<lambda>e. \<not> is_on p e) (since_last_off p pre @ [e])
      = takeWhile (\<lambda>e. \<not> is_on p e) (since_last_off p pre)"
    by (intro takeWhile_append1 [of x]) auto
  have "Suc (length pre) - Suc (length (since_last_off p pre))
      = length pre - length (since_last_off p pre)"
    by simp
  then show ?thesis using assms(2) tw
    by (simp add: opened_at_def since_last_off_snoc)
qed

lemma opened_at_fresh:
  assumes "open_note p pre = None" and "is_on p e"
  shows "opened_at p (pre @ [e]) = length pre"
proof -
  have none: "\<forall>x \<in> set (since_last_off p pre). \<not> is_on p x"
    using assms(1) unfolding open_note_iff_on by blast
  from assms(2) have noff: "\<not> is_off p e" by (cases e) auto
  have tw: "takeWhile (\<lambda>e. \<not> is_on p e) (since_last_off p pre @ [e]) = since_last_off p pre"
    using none assms(2) by (simp add: takeWhile_append2)
  show ?thesis using noff tw length_since_last_off [of p pre]
    by (simp add: opened_at_def since_last_off_snoc)
qed

lemma ordered_keys_on:
  assumes inv: "ordered_keys pre active"
    and look: "\<And>p. map_of active p = open_note p pre"
  shows "ordered_keys (pre @ [note_on_event q v t]) (AList.update q (v, t) active)"
proof -
  let ?e = "note_on_event q v t"
  have kept: "opened_at k (pre @ [?e]) = opened_at k pre" if "k \<in> set (map fst active)" for k
  proof -
    have "open_note k pre \<noteq> None"
      unfolding look [symmetric] map_of_eq_None_iff using that by simp
    then show ?thesis by (intro opened_at_kept) simp_all
  qed
  have sorted_old:
    "sorted_wrt (\<lambda>a b. opened_at a (pre @ [?e]) < opened_at b (pre @ [?e])) (map fst active)"
  proof -
    have "sorted_wrt (\<lambda>a b. opened_at a pre < opened_at b pre) (map fst active)"
      using inv by (simp add: ordered_keys_def)
    then show ?thesis
      by (rule sorted_wrt_mono_rel [rotated]) (simp add: kept)
  qed
  have bound_old: "\<forall>k \<in> set (map fst active). opened_at k (pre @ [?e]) < length pre"
    using inv kept by (simp add: ordered_keys_def)
  show ?thesis
  proof (cases "q \<in> set (map fst active)")
    case True
    then have "map fst (AList.update q (v, t) active) = map fst active"
      by (simp add: update_keys)
    then show ?thesis using inv sorted_old bound_old
      by (simp add: ordered_keys_def less_SucI)
  next
    case False
    then have keys: "map fst (AList.update q (v, t) active) = map fst active @ [q]"
      by (simp add: update_keys)
    have "open_note q pre = None"
      unfolding look [symmetric] map_of_eq_None_iff using False by simp
    then have fresh: "opened_at q (pre @ [?e]) = length pre"
      by (intro opened_at_fresh) simp_all
    show ?thesis using inv sorted_old bound_old False fresh
      by (simp add: ordered_keys_def keys sorted_wrt_append less_SucI)
  qed
qed

lemma ordered_keys_off:
  assumes inv: "ordered_keys pre active"
    and look: "\<And>p. map_of active p = open_note p pre"
  shows "ordered_keys (pre @ [note_off_event q t]) (AList.delete q active)"
proof -
  let ?e = "note_off_event q t"
  have kept: "opened_at k (pre @ [?e]) = opened_at k pre"
    if "k \<in> set (map fst active)" and "k \<noteq> q" for k
  proof -
    have "open_note k pre \<noteq> None"
      unfolding look [symmetric] map_of_eq_None_iff using that(1) by simp
    then show ?thesis using that(2) by (intro opened_at_kept) simp_all
  qed
  have keys: "map fst (AList.delete q active) = removeAll q (map fst active)"
    by (simp add: delete_keys)
  have sub: "set (removeAll q (map fst active)) \<subseteq> set (map fst active) - {q}" by auto
  have "sorted_wrt (\<lambda>a b. opened_at a pre < opened_at b pre) (removeAll q (map fst active))"
    using inv by (simp add: ordered_keys_def removeAll_filter_not_eq sorted_wrt_filter)
  then have sorted_new:
    "sorted_wrt (\<lambda>a b. opened_at a (pre @ [?e]) < opened_at b (pre @ [?e]))
       (removeAll q (map fst active))"
    by (rule sorted_wrt_mono_rel [rotated]) (use kept in auto)
  have bound: "\<forall>k \<in> set (removeAll q (map fst active)). opened_at k (pre @ [?e]) < Suc (length pre)"
    using inv kept by (auto simp: ordered_keys_def less_SucI)
  show ?thesis using inv sorted_new bound
    by (simp add: ordered_keys_def keys distinct_removeAll)
qed

lemma ordered_keys_off_absent:
  assumes inv: "ordered_keys pre active"
    and look: "\<And>p. map_of active p = open_note p pre"
    and absent: "map_of active q = None"
  shows "ordered_keys (pre @ [note_off_event q t]) active"
proof -
  have "AList.delete q active = active"
    using absent by (simp add: delete_id map_of_eq_None_iff)
  with ordered_keys_off [OF inv look, of q t] show ?thesis by simp
qed

lemma pair_events_order:
  assumes "pair_events bps es active ns = Inr (ns', active')"
    and "\<And>p. map_of active p = open_note p pre"
    and "ordered_keys pre active"
  shows "ordered_keys (pre @ es) active'"
  using assms
proof (induction es arbitrary: active ns pre)
  case Nil
  then show ?case by simp
next
  case (Cons e es)
  show ?case
  proof (cases e)
    case (note_on_event q v t)
    have inv: "\<And>p. map_of (AList.update q (v, t) active) p
        = open_note p (pre @ [note_on_event q v t])"
      using Cons.prems(2) by (simp add: update_conv' open_note_snoc_on)
    have ord: "ordered_keys (pre @ [note_on_event q v t]) (AList.update q (v, t) active)"
      using Cons.prems(3) Cons.prems(2) by (rule ordered_keys_on)
    from Cons.prems(1) have run:
      "pair_events bps es (AList.update q (v, t) active) ns = Inr (ns', active')"
      by (simp add: note_on_event)
    from Cons.IH [OF run inv ord] show ?thesis by (simp add: note_on_event)
  next
    case (note_off_event q t')
    show ?thesis
    proof (cases "map_of active q")
      case None
      then have closed: "open_note q pre = None" using Cons.prems(2) by simp
      have inv: "\<And>p. map_of active p = open_note p (pre @ [note_off_event q t'])"
        using Cons.prems(2) closed by (auto simp: open_note_snoc_off)
      have ord: "ordered_keys (pre @ [note_off_event q t']) active"
        using Cons.prems(3) Cons.prems(2) None by (rule ordered_keys_off_absent)
      from Cons.prems(1) None have run: "pair_events bps es active ns = Inr (ns', active')"
        by (simp add: note_off_event)
      from Cons.IH [OF run inv ord] show ?thesis by (simp add: note_off_event)
    next
      case (Some vt)
      obtain v0 t0 where vt: "vt = (v0, t0)" by (cases vt)
      from Cons.prems(1) Some vt obtain n where
        run: "pair_events bps es (AList.delete q active) (ns @ [n]) = Inr (ns', active')"
        by (auto simp: note_off_event Let_def split: sum.splits)
      have inv: "\<And>p. map_of (AList.delete q active) p
          = open_note p (pre @ [note_off_event q t'])"
        using Cons.prems(2) by (simp add: delete_conv' open_note_snoc_off)
      have ord: "ordered_keys (pre @ [note_off_event q t']) (AList.delete q active)"
        using Cons.prems(3) Cons.prems(2) by (rule ordered_keys_off)
      from Cons.IH [OF run inv ord] show ?thesis by (simp add: note_off_event)
    qed
  qed
qed

lemma ordered_keys_Nil: "ordered_keys [] []"
  by (simp add: ordered_keys_def)

lemma pitch_open_entry: "pitch (open_entry bps e) = fst e"
  by (cases e) (auto simp: open_entry_def)

text \<open>
  C2, as the code has it. When the conversion of a recording returns a phrase, its notes
  are: first, one note for each note-off that finds its pitch open, in the order of the
  note-offs, with that pitch, the velocity and start (in beats) of the latest note-on of
  the pitch, and the duration off minus on in beats, at least \<open>0.1\<close>; then one note of
  duration \<open>0.5\<close> for each pitch still open at the end, each pitch once, with the velocity
  and start of its latest note-on, in the order in which the pitches were opened. A
  note-on followed by another note-on of the same pitch before any note-off gives no
  note of its own.
\<close>

theorem response_conversion:
  assumes conv: "convert_midi_recording_to_phrase config rid events = Some ph"
    and bps: "bps = real_of_int (cfg_bpm config) / 60"
  shows "\<exists>opened. ph_notes ph = paired_notes bps [] events @ opened
    \<and> distinct (map pitch opened)
    \<and> set opened = {open_entry bps (p, vt) | p vt. open_note p events = Some vt}
    \<and> sorted_wrt (\<lambda>a b. opened_at (pitch a) events < opened_at (pitch b) events) opened"
proof -
  from conv obtain ns active ns' where
    pe: "pair_events bps events [] [] = Inr (ns, active)"
    and co: "close_open_notes bps active ns = Inr ns'"
    and ph: "ph_notes ph = ns'"
    unfolding convert_midi_recording_to_phrase_def bps Phrase_init_def
    by (auto simp: Let_def split: if_splits sum.splits prod.splits)
  have look0: "\<And>p. map_of ([] :: (int, int \<times> real) dict) p = open_note p []"
    by (simp add: open_note_Nil)
  from pair_events_spec [OF pe look0]
  have ns: "ns = paired_notes bps [] events"
    and look: "\<And>p. map_of active p = open_note p events"
    by simp_all
  from pair_events_order [OF pe look0 ordered_keys_Nil]
  have ord: "ordered_keys events active" by simp
  from close_open_notes_spec [OF co]
  have all: "ns' = ns @ map (open_entry bps) active" .
  have keys: "map pitch (map (open_entry bps) active) = map fst active"
    by (simp add: pitch_open_entry comp_def)
  have dist: "distinct (map fst active)" using ord by (simp add: ordered_keys_def)
  have mem: "((p, vt) \<in> set active) = (open_note p events = Some vt)" for p vt
    using map_of_eq_Some_iff [OF dist, of p vt] look [of p] by simp
  have st: "set (map (open_entry bps) active)
      = {open_entry bps (p, vt) | p vt. open_note p events = Some vt}"
  proof -
    have "set (map (open_entry bps) active) = {open_entry bps (p, vt) | p vt. (p, vt) \<in> set active}"
      by auto
    then show ?thesis by (simp add: mem)
  qed
  have srt: "sorted_wrt (\<lambda>a b. opened_at (pitch a) events < opened_at (pitch b) events)
      (map (open_entry bps) active)"
    using ord by (simp add: ordered_keys_def sorted_wrt_map pitch_open_entry)
  have dist': "distinct (map pitch (map (open_entry bps) active))"
    by (simp only: keys dist)
  have phn: "ph_notes ph = paired_notes bps [] events @ map (open_entry bps) active"
    by (simp only: ph all ns)
  show ?thesis
    using phn dist' st srt by blast
qed

text \<open>
  C2 as stated fails: of two overlapping notes the one released first comes first in the
  phrase, so the phrase does not keep the order in which the notes were played.
\<close>

theorem response_conversion_counterexample:
  "\<exists>ph. convert_midi_recording_to_phrase
           \<lparr>cfg_input_timeout = 10, cfg_response_measures = 1, cfg_bpm = 120\<rparr> ''r''
           [note_on_event 60 80 0, note_on_event 62 90 (1 / 2),
            note_off_event 62 1, note_off_event 60 (3 / 2)] = Some ph
     \<and> map (\<lambda>n. (pitch n, velocity n)) (ph_notes ph)
         \<noteq> recorded_notes [note_on_event 60 80 0, note_on_event 62 90 (1 / 2),
              note_off_event 62 1, note_off_event 60 (3 / 2)]"
  by (simp add: convert_midi_recording_to_phrase_def MusicalNote_init_def Phrase_init_def
        validate_metadata_def set_defaults_def setdefault_def py_int_def Let_def)

text \<open>
  A response whose last note ends between 12 and 16 beats gives an estimated bar count
  of 3, which the phrase constructor refuses: the whole response is lost.
\<close>

lemma three_bar_response_dropped:
  "convert_midi_recording_to_phrase
     \<lparr>cfg_input_timeout = 10, cfg_response_measures = 4, cfg_bpm = 120\<rparr> ''r''
     [note_on_event 60 80 0, note_off_event 60 (13 / 2)] = None"
proof -
  have f: "\<lfloor>(13::real) / 4\<rfloor> = 3" by (simp add: floor_eq_iff)
  show ?thesis
    by (simp add: convert_midi_recording_to_phrase_def MusicalNote_init_def Phrase_init_def
        validate_metadata_def set_defaults_def setdefault_def py_int_def Let_def f)
qed

theorem response_conversion_witness:
  "\<exists>ph opened. convert_midi_recording_to_phrase
           \<lparr>cfg_input_timeout = 10, cfg_response_measures = 1, cfg_bpm = 120\<rparr> ''r''
           [note_on_event 60 80 0, note_on_event 62 90 (1 / 2),
            note_off_event 62 1, note_on_event 64 70 2] = Some ph
     \<and> ph_notes ph =
         [\<lparr>pitch = 62, start_time = 1, duration = 1, velocity = 90\<rparr>,
          \<lparr>pitch = 60, start_time = 0, duration = 1 / 2, velocity = 80\<rparr>,
          \<lparr>pitch = 64, start_time = 4, duration = 1 / 2, velocity = 70\<rparr>]
     \<and> ph_notes ph =
         paired_notes 2 [] [note_on_event 60 80 0, note_on_event 62 90 (1 / 2),
            note_off_event 62 1, note_on_event 64 70 2] @ opened
     \<and> distinct (map pitch opened)"
proof -
  let ?cfg = "\<lparr>cfg_input_timeout = 10, cfg_response_measures = 1, cfg_bpm = 120\<rparr>"
  let ?evs = "[note_on_event 60 80 0, note_on_event 62 90 (1 / 2),
            note_off_event 62 1, note_on_event 64 70 2]"
  let ?ph = "\<lparr>ph_notes =
         [\<lparr>pitch = 62, start_time = 1, duration = 1, velocity = 90\<rparr>,
          \<lparr>pitch = 60, start_time = 0, duration = 1 / 2, velocity = 80\<rparr>,
          \<lparr>pitch = 64, start_time = 4, duration = 1 / 2, velocity = 70\<rparr>],
       ph_metadata = \<lparr>md_style = Some ''student_response'', md_difficulty = Some 1,
         md_key = Some ''unknown'', md_tempo = Some 120, md_bars = Some 1,
         md_time_signature = Some (4, 4), md_description = Some ''Student Response'',
         md_id = Some ''r''\<rparr>\<rparr>"
  have f: "\<lfloor>(9::real) / 8\<rfloor> = 1" by (simp add: floor_eq_iff)
  have conv: "convert_midi_recording_to_phrase ?cfg ''r'' ?evs = Some ?ph"
    by (simp add: convert_midi_recording_to_phrase_def MusicalNote_init_def Phrase_init_def
        validate_metadata_def set_defaults_def setdefault_def py_int_def Let_def f)
  from response_conversion [OF conv, of 2]
  obtain opened where "ph_notes ?ph = paired_notes 2 [] ?evs @ opened"
    "distinct (map pitch opened)"
    by auto
  with conv show ?thesis by (intro exI [of _ ?ph] exI [of _ opened]) simp
qed

subsection \<open>Session\<close>



lemma Phrase_empty_constructed: "Phrase_init [] empty_metadata = Inr Phrase_empty"
  by (simp add: Phrase_init_def validate_metadata_def set_defaults_def setdefault_def
      empty_metadata_def Phrase_empty_def Let_def)

lemma sample_phrase_constructed:
  "Phrase_init [\<lparr>pitch = 60, start_time = 0, duration = 1, velocity = 80\<rparr>] empty_metadata
     = Inr sample_phrase"
  by (simp add: Phrase_init_def validate_metadata_def set_defaults_def setdefault_def
      empty_metadata_def sample_phrase_def Let_def)

lemma truthy_sample [simp]: "truthy (Some sample_phrase)"
  by (simp add: truthy_def len_def sample_phrase_def)

lemma start_playback_frame:
  "sm_state (fst (start_playback s)) = sm_state s"
  "sm_phrases_completed (fst (start_playback s)) = sm_phrases_completed s"
  by (simp_all add: start_playback_def emit_event_def)

lemma clear_phrase_on_recommendation_frame:
  "sm_state (clear_phrase_on_recommendation s) = sm_state s"
  "sm_phrases_completed (clear_phrase_on_recommendation s) = sm_phrases_completed s"
  by (simp_all add: clear_phrase_on_recommendation_def)

lemma persist_difficulty_frame:
  "sm_state (persist_difficulty s) = sm_state s"
  "sm_phrases_completed (persist_difficulty s) = sm_phrases_completed s"
  by (simp_all add: persist_difficulty_def)

lemma select_phrase_frame:
  "sm_state (select_phrase s ph) = sm_state s"
  "sm_phrases_completed (select_phrase s ph) = sm_phrases_completed s"
  by (simp_all add: select_phrase_def)

lemma enter_playback_state_frame:
  "sm_state (fst (enter_playback_state env s)) = sm_state s"
  "sm_phrases_completed (fst (enter_playback_state env s)) = sm_phrases_completed s"
  by (simp_all add: enter_playback_state_def Let_def start_playback_frame
      clear_phrase_on_recommendation_frame persist_difficulty_frame select_phrase_frame)

lemma change_state_state: "sm_state (fst (change_state env now s st)) = st"
proof (cases st)
  case PLAYBACK
  then show ?thesis
    using enter_playback_state_frame(1) [of env "s\<lparr>sm_state := PLAYBACK\<rparr>"]
    by (simp add: change_state_def Let_def split_beta emit_event_def split: option.splits)
next
  case RECORDING_RESPONSE
  then show ?thesis
    by (simp add: change_state_def enter_recording_state_def Let_def split_beta emit_event_def
        split: option.splits sum.splits)
qed (simp_all add: change_state_def Let_def emit_event_def enter_listening_state_def
      enter_feedback_state_def enter_idle_state_def)


lemma enter_playback_state_replay:
  assumes "sm_session_active s" and "truthy (sm_current_phrase s)"
    and "sm_last_recommendation s
           \<notin> Some ` set [''SIMPLIFY'', ''COMPLEXIFY'', ''CURRENT_COMPLEXITY_NEW_PHRASE'']"
    and "cfg_bpm (sm_config s) \<noteq> 0"
  shows "enter_playback_state env s =
    (emit_event
       (s\<lparr>sm_current_phrase_attempts := sm_current_phrase_attempts s + 1,
           sm_play_requests :=
             sm_play_requests s @ [(the (sm_current_phrase s), cfg_bpm (sm_config s))]\<rparr>)
       PhrasePlaybackStarted, None)"
  using assms
  by (simp add: enter_playback_state_def Let_def start_playback_def
      clear_phrase_on_recommendation_def)

lemma playback_change_replay:
  assumes "sm_session_active s" and "truthy (sm_current_phrase s)"
    and "sm_last_recommendation s
           \<notin> Some ` set [''SIMPLIFY'', ''COMPLEXIFY'', ''CURRENT_COMPLEXITY_NEW_PHRASE'']"
    and "cfg_bpm (sm_config s) \<noteq> 0"
  shows "snd (change_state env now s PLAYBACK) = None
    \<and> sm_play_requests (fst (change_state env now s PLAYBACK))
        = sm_play_requests s @ [(the (sm_current_phrase s), cfg_bpm (sm_config s))]
    \<and> sm_current_phrase (fst (change_state env now s PLAYBACK)) = sm_current_phrase s"
  using assms enter_playback_state_replay [of "s\<lparr>sm_state := PLAYBACK\<rparr>" env]
  by (simp add: change_state_def Let_def emit_event_def)






lemma start_playback_keeps:
  "sm_session_active (fst (start_playback s)) = sm_session_active s"
  "sm_config (fst (start_playback s)) = sm_config s"
  "sm_recording_workers (fst (start_playback s)) = sm_recording_workers s"
  by (simp_all add: start_playback_def emit_event_def)

lemma clear_phrase_on_recommendation_keeps:
  "sm_session_active (clear_phrase_on_recommendation s) = sm_session_active s"
  "sm_config (clear_phrase_on_recommendation s) = sm_config s"
  "sm_recording_workers (clear_phrase_on_recommendation s) = sm_recording_workers s"
  by (simp_all add: clear_phrase_on_recommendation_def)

lemma persist_difficulty_keeps:
  "sm_session_active (persist_difficulty s) = sm_session_active s"
  "sm_config (persist_difficulty s) = sm_config s"
  "sm_recording_workers (persist_difficulty s) = sm_recording_workers s"
  by (simp_all add: persist_difficulty_def)

lemma select_phrase_keeps:
  "sm_session_active (select_phrase s ph) = sm_session_active s"
  "sm_config (select_phrase s ph) = sm_config s"
  "sm_recording_workers (select_phrase s ph) = sm_recording_workers s"
  by (simp_all add: select_phrase_def)

lemma enter_playback_state_keeps:
  "sm_session_active (fst (enter_playback_state env s)) = sm_session_active s"
  "sm_config (fst (enter_playback_state env s)) = sm_config s"
  "sm_recording_workers (fst (enter_playback_state env s)) = sm_recording_workers s"
  by (simp_all add: enter_playback_state_def Let_def start_playback_keeps
      clear_phrase_on_recommendation_keeps persist_difficulty_keeps select_phrase_keeps)

lemma playback_change_keeps:
  "sm_session_active (fst (change_state env now s PLAYBACK)) = sm_session_active s"
  "sm_config (fst (change_state env now s PLAYBACK)) = sm_config s"
  "sm_recording_workers (fst (change_state env now s PLAYBACK)) = sm_recording_workers s"
  using enter_playback_state_keeps [of env "s\<lparr>sm_state := PLAYBACK\<rparr>"]
  by (cases "snd (enter_playback_state env (s\<lparr>sm_state := PLAYBACK\<rparr>))";
      simp add: change_state_def Let_def split_beta emit_event_def)+

lemma start_session_step:
  assumes "\<not> sm_session_active s"
    and s': "s' = fst (start_session env now s style d (Some b) True)"
  shows "sm_state s' = PLAYBACK" and "sm_session_active s'"
    and "cfg_bpm (sm_config s') = b" and "sm_recording_workers s' = sm_recording_workers s"
proof -
  let ?s2 = "s\<lparr>sm_config := (sm_config s)\<lparr>cfg_bpm := b\<rparr>\<rparr>
              \<lparr>sm_session_active := True, sm_phrases_completed := 0,
               sm_session_start_time :=
                 (if sm_session_start_time s = None \<or> sm_session_start_time s = Some 0
                  then Some now else sm_session_start_time s),
               sm_user_input_detected := False, sm_response_start_time := None,
               sm_midi_notes_playing := {},
               sm_initial_difficulty := Some d,
               sm_initial_style := style\<rparr>"
  have s'': "s' = (case snd (change_state env now ?s2 PLAYBACK) of
                    Some e \<Rightarrow> fst (change_state env now ?s2 PLAYBACK)
                  | None \<Rightarrow> emit_event (fst (change_state env now ?s2 PLAYBACK)) SessionStarted)"
    using assms(1)
    by (simp add: s' start_session_def Let_def split_beta split: option.splits)
  note s' = s''
  show "sm_state s' = PLAYBACK"
    by (simp add: s' change_state_state emit_event_def split: option.splits)
  show "sm_session_active s'"
    by (simp add: s' playback_change_keeps emit_event_def split: option.splits)
  show "cfg_bpm (sm_config s') = b"
    by (simp add: s' playback_change_keeps emit_event_def split: option.splits)
  show "sm_recording_workers s' = sm_recording_workers s"
    by (simp add: s' playback_change_keeps emit_event_def split: option.splits)
qed

lemma on_phrase_started_step:
  assumes "sm_state s = PLAYBACK"
    and s': "s' = on_phrase_started s ph"
  shows "sm_state s' = PLAYBACK" and "sm_session_active s' = sm_session_active s"
    and "sm_config s' = sm_config s" and "sm_recording_workers s' = sm_recording_workers s"
  using assms(1) by (simp_all add: s' on_phrase_started_def Let_def emit_event_def)

lemma on_phrase_finished_step:
  assumes "sm_state s = PLAYBACK" and "sm_session_active s"
    and s': "s' = fst (on_phrase_finished env now s ph)"
  shows "sm_state s' = LISTENING" and "sm_session_active s'"
    and "cfg_bpm (sm_config s') = cfg_bpm (sm_config s)"
    and "sm_listening_workers s' \<noteq> 0" and "\<not> sm_user_input_detected s'"
    and "\<not> sm_stop_listening s'"
  using assms(1,2)
  by (simp_all add: s' on_phrase_finished_def change_state_def enter_listening_state_def
      Let_def emit_event_def)

lemma on_midi_note_on_step:
  assumes "sm_state s = LISTENING" and "\<not> sm_user_input_detected s"
    and s': "s' = on_midi_note_on s n v now now'"
  shows "sm_state s' = LISTENING" and "sm_session_active s' = sm_session_active s"
    and "sm_config s' = sm_config s"
    and "sm_listening_workers s' = sm_listening_workers s" and "sm_user_input_detected s'"
    and "sm_stop_listening s' = sm_stop_listening s"
  using assms(1,2) by (simp_all add: s' on_midi_note_on_def Let_def emit_event_def)

lemma listening_worker_step:
  assumes "sm_session_active s" and "\<not> sm_stop_listening s" and "cfg_bpm (sm_config s) \<noteq> 0"
    and s': "s' = fst (listening_worker env now s True)"
  shows "sm_state s' = RECORDING_RESPONSE" and "sm_session_active s'"
    and "sm_recording_workers s' \<noteq> 0"
  using assms(1,2,3)
  by (simp_all add: s' listening_worker_def change_state_def enter_recording_state_def
      get_response_duration_def Let_def emit_event_def)

lemma stop_session_step:
  assumes "sm_session_active s"
    and s': "s' = stop_session env now s"
  shows "sm_state s' = IDLE" and "\<not> sm_session_active s'"
    and "sm_recording_workers s' = sm_recording_workers s"
  using assms(1)
  by (simp_all add: s' stop_session_def change_state_def enter_idle_state_def
      Let_def emit_event_def)

lemma recording_worker_step:
  assumes "sm_session_active s"
  shows "sm_state (fst (recording_worker env now response_id s)) = FEEDBACK"
  using assms by (simp add: recording_worker_def Let_def change_state_state)

lemma listening_timeout_replays:
  assumes "sm_session_active s" and "truthy (sm_current_phrase s)"
    and "sm_last_recommendation s
           \<notin> Some ` set [''SIMPLIFY'', ''COMPLEXIFY'', ''CURRENT_COMPLEXITY_NEW_PHRASE'']"
    and "cfg_bpm (sm_config s) \<noteq> 0"
    and s': "s' = fst (listening_worker env now s False)"
  shows "sm_state s' = PLAYBACK \<and> sm_current_phrase s' = sm_current_phrase s
    \<and> sm_play_requests s'
        = sm_play_requests s @ [(the (sm_current_phrase s), cfg_bpm (sm_config s))]"
proof -
  let ?s1 = "emit_event (s\<lparr>sm_listening_workers := sm_listening_workers s - 1\<rparr>) InputTimeout"
  have "s' = fst (change_state env now ?s1 PLAYBACK)"
    using assms(1) by (simp add: s' listening_worker_def Let_def)
  then show ?thesis
    using assms(1-4) playback_change_replay [of ?s1 env now]
    by (simp add: change_state_state emit_event_def)
qed

text \<open>
  C3, on a run of the code. The first part holds in the usual case: a timeout of the wait
  for input in an active session leads to \<open>PLAYBACK\<close> with the same phrase, asked to be
  played again (lemma \<open>listening_timeout_replays\<close>). The second part fails. The recording
  worker checks only that a session is active when its sleep ends, not that the state is
  still \<open>RECORDING_RESPONSE\<close>, while the handler of the end of a phrase does check that
  the state is \<open>PLAYBACK\<close>. In the run below the session is stopped and started again
  during the sleep, and the worker enters \<open>FEEDBACK\<close> from \<open>PLAYBACK\<close>, while the
  phrase is playing.
\<close>

theorem stale_recording_worker_enters_feedback:
  "states_visited sample_library Session_init stale_recording_run
     = [PLAYBACK, PLAYBACK, LISTENING, LISTENING, RECORDING_RESPONSE, IDLE, PLAYBACK,
        PLAYBACK, FEEDBACK]"
proof -
  let ?L = sample_library
  define s1 where "s1 = fst (start_session ?L 0 Session_init ''modal_jazz'' 1 (Some 120) True)"
  define s2 where "s2 = on_phrase_started s1 sample_phrase"
  define s3 where "s3 = fst (on_phrase_finished ?L 4 s2 sample_phrase)"
  define s4 where "s4 = on_midi_note_on s3 60 80 5 5"
  define s5 where "s5 = fst (listening_worker ?L 5.05 s4 True)"
  define s6 where "s6 = stop_session ?L 6 s5"
  define s7 where "s7 = fst (start_session ?L 7 s6 ''modal_jazz'' 1 (Some 120) True)"
  define s8 where "s8 = on_phrase_started s7 sample_phrase"
  define s9 where "s9 = fst (recording_worker ?L 9.05 ''student_response_9'' s8)"
  have idle: "\<not> sm_session_active Session_init" by (simp add: Session_init_def)
  note p1 = start_session_step [OF idle s1_def]
  note p2 = on_phrase_started_step [OF p1(1) s2_def]
  have a2: "sm_session_active s2" and b2: "cfg_bpm (sm_config s2) = 120"
    by (simp_all add: p2 p1)
  note p3 = on_phrase_finished_step [OF p2(1) a2 s3_def]
  note p4 = on_midi_note_on_step [OF p3(1) p3(5) s4_def]
  have a4: "sm_session_active s4" and c4: "\<not> sm_stop_listening s4"
    and b4: "cfg_bpm (sm_config s4) \<noteq> 0" and l4: "sm_listening_workers s4 \<noteq> 0"
    by (simp_all add: p4 p3 b2)
  note p5 = listening_worker_step [OF a4 c4 b4 s5_def]
  note p6 = stop_session_step [OF p5(2) s6_def]
  note p7 = start_session_step [OF p6(2) s7_def]
  note p8 = on_phrase_started_step [OF p7(1) s8_def]
  have a8: "sm_session_active s8" and r8: "sm_recording_workers s8 \<noteq> 0"
    by (simp_all add: p8 p7 p6 p5)
  have p9: "sm_state s9 = FEEDBACK"
    unfolding s9_def by (rule recording_worker_step [OF a8])
  have f1: "fire ?L 0 Session_init (StartSession ''modal_jazz'' 1 (Some 120) True) = Some s1"
    by (simp add: s1_def)
  have f2: "fire ?L 0 s1 (PhraseStarted sample_phrase) = Some s2" by (simp add: s2_def)
  have f3: "fire ?L 4 s2 (PhraseFinished sample_phrase) = Some s3" by (simp add: s3_def)
  have f4: "fire ?L 5 s3 (MidiNoteOn 60 80 5) = Some s4" by (simp add: s4_def)
  have f5: "fire ?L 5.05 s4 (ListeningWorker True) = Some s5"
    using l4 p4(5) by (simp add: s5_def)
  have f6: "fire ?L 6 s5 StopSession = Some s6" by (simp add: s6_def)
  have f7: "fire ?L 7 s6 (StartSession ''modal_jazz'' 1 (Some 120) True) = Some s7"
    by (simp add: s7_def)
  have f8: "fire ?L 8 s7 (PhraseStarted sample_phrase) = Some s8" by (simp add: s8_def)
  have f9: "fire ?L 9.05 s8 (RecordingWorker ''student_response_9'') = Some s9"
    using r8 by (simp add: s9_def)
  show ?thesis
    unfolding stale_recording_run_def
    by (simp only: states_visited.simps f1 f2 f3 f4 f5 f6 f7 f8 f9 option.case
        p1(1) p2(1) p3(1) p4(1) p5(1) p6(1) p7(1) p8(1) p9)
qed

end
